theory Spec2Isabelle
  imports Complex_Main
begin

section \<open>JavaScript values, strings and errors\<close>

text \<open>
  The crawl engine is JavaScript. Strings are modelled as \<open>string\<close>; a character stands
  for one code unit and non-ASCII text is written as its UTF-8 bytes. Numbers are IEEE
  doubles: a finite double is a real number, and the three special values are kept apart,
  because \<open>typeof NaN\<close> is \<open>'number'\<close> and every comparison with \<open>NaN\<close> is false.
\<close>

datatype js_number = Fin real | NaN | PosInfinity | NegInfinity

datatype js_value = JUndefined | JNull | JBool bool | JNum js_number | JStr string

text \<open>\<open>n < c\<close> and \<open>n > c\<close> for a finite constant \<open>c\<close>.\<close>

fun num_lt :: "js_number \<Rightarrow> real \<Rightarrow> bool" where
  "num_lt (Fin x) c = (x < c)"
| "num_lt NaN c = False"
| "num_lt PosInfinity c = False"
| "num_lt NegInfinity c = True"

fun num_gt :: "js_number \<Rightarrow> real \<Rightarrow> bool" where
  "num_gt (Fin x) c = (x > c)"
| "num_gt NaN c = False"
| "num_gt PosInfinity c = True"
| "num_gt NegInfinity c = False"

text \<open>Truthiness, as \<open>if (v)\<close>, \<open>v || d\<close> and \<open>v ? a : b\<close> read a value.\<close>

fun truthy :: "js_value \<Rightarrow> bool" where
  "truthy JUndefined = False"
| "truthy JNull = False"
| "truthy (JBool b) = b"
| "truthy (JNum (Fin x)) = (x \<noteq> 0)"
| "truthy (JNum NaN) = False"
| "truthy (JNum PosInfinity) = True"
| "truthy (JNum NegInfinity) = True"
| "truthy (JStr s) = (s \<noteq> [])"

definition js_or :: "js_value \<Rightarrow> js_value \<Rightarrow> js_value" where
  "js_or v d = (if truthy v then v else d)"

text \<open>A destructuring default \<open>{ f = d } = options\<close> replaces \<open>undefined\<close> only.\<close>

definition default_to :: "js_value \<Rightarrow> js_value \<Rightarrow> js_value" where
  "default_to d v = (if v = JUndefined then d else v)"

text \<open>An \<open>Error\<close> object, read through its \<open>message\<close>.\<close>

datatype js_error = Error string

fun message :: "js_error \<Rightarrow> string" where
  "message (Error m) = m"

definition startsWith :: "string \<Rightarrow> string \<Rightarrow> bool" where
  "startsWith s p = (take (length p) s = p)"

fun str_includes :: "string \<Rightarrow> string \<Rightarrow> bool" where
  "str_includes [] p = (p = [])"
| "str_includes (c # cs) p = (startsWith (c # cs) p \<or> str_includes cs p)"

definition is_space :: "char \<Rightarrow> bool" where
  "is_space c = (c \<in> set [CHR '' '', CHR 0x09, CHR 0x0A, CHR 0x0B, CHR 0x0C, CHR 0x0D])"

definition trim :: "string \<Rightarrow> string" where
  "trim s = rev (dropWhile is_space (rev (dropWhile is_space s)))"

fun join :: "string \<Rightarrow> string list \<Rightarrow> string" where
  "join sep [] = []"
| "join sep [x] = x"
| "join sep (x # y # ys) = x @ sep @ join sep (y # ys)"

section \<open>Dedup and identity: the article fingerprint\<close>

text \<open>
  \<open>crypto.createHash('md5').update(s).digest('hex')\<close> is Node's library, not code of the
  repository: the digest is the parameter \<open>md5\<close>. The same one-line method is written
  twice, in \<open>BaseCrawler\<close> (inherited by every backend) and in \<open>UniversalCrawler\<close>.
\<close>

definition BaseCrawler_generateHash :: "(string \<Rightarrow> string) \<Rightarrow> string \<Rightarrow> string \<Rightarrow> string" where
  "BaseCrawler_generateHash md5 title link = md5 (title @ link)"

definition generateHash :: "(string \<Rightarrow> string) \<Rightarrow> string \<Rightarrow> string \<Rightarrow> string" where
  "generateHash md5 title link = md5 (title @ link)"

section \<open>Data model\<close>

text \<open>
  An article as a backend or the link follow-up builds it (\<open>{title, link, content, hash}\<close>
  or \<open>{title, link, content, depth}\<close>); an absent field is \<open>None\<close>.
\<close>

record article =
  art_title :: string
  art_link :: string
  art_content :: string
  art_hash :: "string option"
  art_depth :: "nat option"

text \<open>A row of table \<open>articles\<close>: \<open>link\<close> and \<open>hash\<close> are \<open>UNIQUE\<close> columns.\<close>

record article_row =
  row_id :: nat
  row_source_id :: nat
  row_title :: string
  row_link :: string
  row_content :: string
  row_hash :: string
  row_depth :: nat

text \<open>
  A row of \<open>news_sources\<close>. A selector column that is \<open>NULL\<close> is the empty string here:
  both are falsy, and both make the title query of either backend come back empty.
\<close>

record source =
  src_id :: nat
  src_name :: string
  base_url :: string
  list_selector :: string
  title_selector :: string
  content_selector :: string
  link_selector :: string
  active :: bool
  crawler_type :: string

text \<open>The options object of \<open>crawlSource\<close>; a field the caller left out is \<open>JUndefined\<close>.\<close>

record crawl_options =
  opt_limit :: js_value
  opt_crawlDepth :: js_value
  opt_fullContent :: js_value
  opt_waitTime :: js_value
  opt_timeout :: js_value
  opt_navigationTimeout :: js_value
  opt_followLinks :: js_value

text \<open>A row of \<open>schedules\<close>, its columns as the driver hands them to JavaScript.\<close>

record schedule =
  sch_id :: nat
  sch_source_id :: nat
  cron_expression :: string
  is_active :: js_value
  crawl_depth :: js_value
  full_content :: js_value
  article_limit :: js_value
  timeout_ms :: js_value
  follow_links :: js_value
  last_run :: "nat option"

record crawl_log =
  log_source_id :: nat
  log_action :: string
  log_status :: string
  log_articles_found :: nat
  log_articles_processed :: nat

record history_row =
  hist_source_id :: nat
  total_found :: nat
  total_processed :: nat
  new_articles :: nat
  hist_crawl_depth :: js_value

text \<open>
  The order of the engine's outward actions is kept in a trace: calls to and returns from
  \<open>crawlSource\<close>, calls of the selected backend, and the scheduler's statements.
\<close>

datatype event =
    CrawlSourceCalled nat crawl_options
  | CrawlSourceReturned nat bool
  | CrawlerCrawl nat
  | CrawlerClose nat
  | ScheduleRead nat
  | LastRunUpdated nat

text \<open>
  The storage collaborator: the tables the engine touches, and a script of the errors the
  database raises, one entry per statement issued (\<open>None\<close>: the statement runs; an
  exhausted script: every further statement runs).
\<close>

record world =
  articles :: "article_row list"
  articles_lastID :: nat
  news_sources :: "source list"
  schedules :: "schedule list"
  crawl_logs :: "crawl_log list"
  crawl_history :: "history_row list"
  faults :: "js_error option list"
  trace :: "event list"

definition next_fault :: "world \<Rightarrow> js_error option \<times> world" where
  "next_fault w = (case faults w of [] \<Rightarrow> (None, w) | f # fs \<Rightarrow> (f, w\<lparr>faults := fs\<rparr>))"

definition log_event :: "event \<Rightarrow> world \<Rightarrow> world" where
  "log_event e w = w\<lparr>trace := trace w @ [e]\<rparr>"

section \<open>saveArticle\<close>

text \<open>\<open>SELECT id FROM articles WHERE hash = ? OR link = ?\<close>, read with \<open>db.get\<close>.\<close>

definition select_article_id :: "world \<Rightarrow> string \<Rightarrow> string \<Rightarrow> (js_error + nat option) \<times> world" where
  "select_article_id w h l =
     (case next_fault w of
        (Some e, w') \<Rightarrow> (Inl e, w')
      | (None, w') \<Rightarrow>
          (Inr (map_option row_id (find (\<lambda>r. row_hash r = h \<or> row_link r = l) (articles w'))), w'))"

text \<open>
  The context \<open>db.run\<close> calls back with. After an ignored insert PostgreSQL's adapter
  gives \<open>lastID = null\<close>; SQLite's stale \<open>lastID\<close> is never read, since \<open>changes\<close> is a
  number in both.
\<close>

record run_context =
  lastID :: "nat option"
  changes :: nat

text \<open>
  \<open>INSERT OR IGNORE INTO articles (source_id, title, link, content, hash, depth)\<close>: the
  row is dropped when it would repeat a \<open>link\<close> or a \<open>hash\<close>.
\<close>

definition insert_or_ignore_article ::
  "world \<Rightarrow> nat \<Rightarrow> string \<Rightarrow> string \<Rightarrow> string \<Rightarrow> string \<Rightarrow> nat \<Rightarrow> (js_error + run_context) \<times> world" where
  "insert_or_ignore_article w sid t l c h d =
     (case next_fault w of
        (Some e, w') \<Rightarrow> (Inl e, w')
      | (None, w') \<Rightarrow>
          if list_ex (\<lambda>r. row_link r = l \<or> row_hash r = h) (articles w')
          then (Inr \<lparr>lastID = None, changes = 0\<rparr>, w')
          else (Inr \<lparr>lastID = Some (Suc (articles_lastID w')), changes = 1\<rparr>,
                w'\<lparr>articles := articles w' @
                      [\<lparr>row_id = Suc (articles_lastID w'), row_source_id = sid, row_title = t,
                        row_link = l, row_content = c, row_hash = h, row_depth = d\<rparr>],
                    articles_lastID := Suc (articles_lastID w')\<rparr>))"

record save_result =
  saved_id :: "nat option"
  isNew :: bool

text \<open>The test of the \<open>catch\<close> block of \<open>saveArticle\<close>.\<close>

definition is_unique_violation :: "js_error \<Rightarrow> bool" where
  "is_unique_violation e =
     (str_includes (message e) ''UNIQUE constraint failed'' \<or>
      str_includes (message e) ''duplicate key'' \<or>
      str_includes (message e) ''violates unique constraint'')"

text \<open>
  What the two drivers raise for a violated \<open>UNIQUE\<close> constraint: sqlite3 names the
  column, node-postgres the constraint.
\<close>

definition sqlite_unique_error :: "string \<Rightarrow> js_error" where
  "sqlite_unique_error col = Error (''SQLITE_CONSTRAINT: UNIQUE constraint failed: '' @ col)"

definition pg_unique_error :: "string \<Rightarrow> js_error" where
  "pg_unique_error c = Error (''duplicate key value violates unique constraint '' @ c)"

definition saveArticle_catch :: "js_error \<Rightarrow> world \<Rightarrow> (js_error + save_result) \<times> world" where
  "saveArticle_catch e w =
     (if is_unique_violation e then (Inr \<lparr>saved_id = None, isNew = False\<rparr>, w) else (Inl e, w))"

text \<open>
  \<open>UniversalCrawler.saveArticle\<close>. \<open>Inl\<close> is the error it rethrows. The fingerprint is
  computed from the title and the link alone; \<open>article.content || ''\<close> is the content
  and \<open>article.depth || 0\<close> the depth.
\<close>

definition saveArticle ::
  "(string \<Rightarrow> string) \<Rightarrow> nat \<Rightarrow> article \<Rightarrow> world \<Rightarrow> (js_error + save_result) \<times> world" where
  "saveArticle md5 sourceId a w =
     (let h = generateHash md5 (art_title a) (art_link a) in
      case select_article_id w h (art_link a) of
        (Inl e, w1) \<Rightarrow> saveArticle_catch e w1
      | (Inr (Some existing), w1) \<Rightarrow> (Inr \<lparr>saved_id = Some existing, isNew = False\<rparr>, w1)
      | (Inr None, w1) \<Rightarrow>
          (case insert_or_ignore_article w1 sourceId (art_title a) (art_link a) (art_content a) h
                  (case art_depth a of None \<Rightarrow> 0 | Some d \<Rightarrow> d) of
             (Inl e, w2) \<Rightarrow> saveArticle_catch e w2
           | (Inr ctx, w2) \<Rightarrow>
               (Inr \<lparr>saved_id = (if changes ctx > 0 then lastID ctx else None),
                     isNew = (changes ctx > 0)\<rparr>, w2)))"

text \<open>Example data for the worked instances below.\<close>

definition ex_row :: article_row where
  "ex_row = \<lparr>row_id = 7, row_source_id = 1, row_title = ''Old title'', row_link = ''http://a/1'',
     row_content = [], row_hash = ''x'', row_depth = 0\<rparr>"

definition ex_world :: world where
  "ex_world = \<lparr>articles = [ex_row], articles_lastID = 7, news_sources = [], schedules = [],
     crawl_logs = [], crawl_history = [], faults = [], trace = []\<rparr>"

section \<open>Option validation\<close>

text \<open>
  The messages \<open>validateCrawlOptions\<close> pushes are Persian sentences, one per constraint;
  each is named here by the constraint it reports, in the order of the source: the
  article limit (1 to 100), the crawl depth (0 to 5), the wait time (1000 to 30000 ms),
  the timeout and the navigation timeout (30000 to 900000 ms each).
\<close>

datatype violation =
    LimitRange
  | CrawlDepthRange
  | WaitTimeRange
  | TimeoutRange
  | NavigationTimeoutRange

text \<open>\<open>typeof v !== 'number' || v < lo || v > hi\<close>\<close>

definition out_of_range :: "js_value \<Rightarrow> real \<Rightarrow> real \<Rightarrow> bool" where
  "out_of_range v lo hi = (case v of JNum n \<Rightarrow> num_lt n lo \<or> num_gt n hi | _ \<Rightarrow> True)"

record validation =
  isValid :: bool
  errors :: "violation list"

definition validateCrawlOptions :: "crawl_options \<Rightarrow> validation" where
  "validateCrawlOptions options =
     (let limit = default_to (JNum (Fin 10)) (opt_limit options);
          crawlDepth = default_to (JNum (Fin 0)) (opt_crawlDepth options);
          waitTime = default_to (JNum (Fin 3000)) (opt_waitTime options);
          timeout = default_to (JNum (Fin 180000)) (opt_timeout options);
          navigationTimeout = default_to (JNum (Fin 120000)) (opt_navigationTimeout options);
          errs = (if out_of_range limit 1 100 then [LimitRange] else []) @
                 (if out_of_range crawlDepth 0 5 then [CrawlDepthRange] else []) @
                 (if out_of_range waitTime 1000 30000 then [WaitTimeRange] else []) @
                 (if out_of_range timeout 30000 900000 then [TimeoutRange] else []) @
                 (if out_of_range navigationTimeout 30000 900000 then [NavigationTimeoutRange] else [])
      in \<lparr>isValid = (errs = []), errors = errs\<rparr>)"

section \<open>crawlSource\<close>

text \<open>
  The object \<open>createCrawler(source)\<close> returns, seen from \<open>crawlSource\<close>: \<open>crawl\<close> takes
  the limit and whether \<open>fullContent\<close> is truthy and gives the extracted articles or the
  error it throws; \<open>close\<close> gives the error \<open>close()\<close> throws, if any.
\<close>

record crawler =
  crawl :: "js_number \<Rightarrow> bool \<Rightarrow> js_error + article list"
  close :: "js_error option"

text \<open>The object a successful run returns (its wall-clock \<open>duration\<close> is left out).\<close>

record crawl_success =
  res_source :: string
  res_sourceId :: nat
  res_crawlerType :: string
  res_totalArticles :: nat
  res_newArticles :: nat
  res_internalArticles :: nat
  res_articles :: "article list"

text \<open>
  The \<open>error\<close> string of a failed run: the joined validation messages, the
  source-not-found message, or the message of the error caught.
\<close>

datatype failure_reason = InvalidSettings "violation list" | SourceNotFound nat | Thrown js_error

text \<open>\<open>{success: true, ...}\<close> or \<open>{success: false, error, source: sourceId}\<close>.\<close>

datatype crawl_result = Success crawl_success | Failure failure_reason nat

fun success :: "crawl_result \<Rightarrow> bool" where
  "success (Success r) = True"
| "success (Failure e s) = False"

text \<open>\<open>SELECT * FROM news_sources WHERE id = ? AND active = true\<close>\<close>

definition getSource :: "nat \<Rightarrow> world \<Rightarrow> (js_error + source option) \<times> world" where
  "getSource sourceId w =
     (case next_fault w of
        (Some e, w') \<Rightarrow> (Inl e, w')
      | (None, w') \<Rightarrow> (Inr (find (\<lambda>s. src_id s = sourceId \<and> active s) (news_sources w')), w'))"

text \<open>\<open>logger.logCrawlOperation\<close>: \<open>INSERT INTO crawl_logs\<close>.\<close>

definition logCrawlOperation ::
  "nat \<Rightarrow> string \<Rightarrow> string \<Rightarrow> nat \<Rightarrow> nat \<Rightarrow> world \<Rightarrow> (js_error + unit) \<times> world" where
  "logCrawlOperation sourceId action status found processed w =
     (case next_fault w of
        (Some e, w') \<Rightarrow> (Inl e, w')
      | (None, w') \<Rightarrow>
          (Inr (), w'\<lparr>crawl_logs := crawl_logs w' @
             [\<lparr>log_source_id = sourceId, log_action = action, log_status = status,
               log_articles_found = found, log_articles_processed = processed\<rparr>]\<rparr>))"

text \<open>\<open>logCrawlHistory\<close>: \<open>INSERT INTO crawl_history\<close>.\<close>

definition logCrawlHistory :: "history_row \<Rightarrow> world \<Rightarrow> (js_error + unit) \<times> world" where
  "logCrawlHistory stats w =
     (case next_fault w of
        (Some e, w') \<Rightarrow> (Inl e, w')
      | (None, w') \<Rightarrow> (Inr (), w'\<lparr>crawl_history := crawl_history w' @ [stats]\<rparr>))"

text \<open>
  The loop \<open>for (const article of articles)\<close>: the articles that were new, in order
  (\<open>mainArticles\<close>; \<open>newArticlesCount\<close> is its length), or the error \<open>saveArticle\<close> rethrew.
\<close>

fun save_articles ::
  "(string \<Rightarrow> string) \<Rightarrow> nat \<Rightarrow> article list \<Rightarrow> world \<Rightarrow> (js_error + article list) \<times> world" where
  "save_articles md5 sourceId [] w = (Inr [], w)"
| "save_articles md5 sourceId (a # as) w =
     (case saveArticle md5 sourceId a w of
        (Inl e, w1) \<Rightarrow> (Inl e, w1)
      | (Inr r, w1) \<Rightarrow>
          (case save_articles md5 sourceId as w1 of
             (Inl e, w2) \<Rightarrow> (Inl e, w2)
           | (Inr new, w2) \<Rightarrow> (Inr ((if isNew r then [a] else []) @ new), w2)))"

definition crawler_close :: "nat \<Rightarrow> crawler \<Rightarrow> world \<Rightarrow> js_error option \<times> world" where
  "crawler_close sourceId c w = (close c, log_event (CrawlerClose sourceId) w)"

text \<open>\<open>source.crawler_type || 'puppeteer'\<close>\<close>

definition crawler_type_or_default :: "source \<Rightarrow> string" where
  "crawler_type_or_default src = (if crawler_type src = [] then ''puppeteer'' else crawler_type src)"

text \<open>The body of the inner \<open>try\<close> of \<open>crawlSource\<close>; \<open>Inl\<close> is the error thrown in it.\<close>

definition crawl_and_store ::
  "(string \<Rightarrow> string) \<Rightarrow> nat \<Rightarrow> source \<Rightarrow> crawler \<Rightarrow> js_number \<Rightarrow> bool \<Rightarrow> js_value \<Rightarrow> world
     \<Rightarrow> (js_error + crawl_success) \<times> world" where
  "crawl_and_store md5 sourceId src c limit fullContent crawlDepth w =
     (case crawl c limit fullContent of
        Inl e \<Rightarrow> (Inl e, log_event (CrawlerCrawl sourceId) w)
      | Inr found \<Rightarrow>
          (case save_articles md5 sourceId found (log_event (CrawlerCrawl sourceId) w) of
             (Inl e, w2) \<Rightarrow> (Inl e, w2)
           | (Inr mainArticles, w2) \<Rightarrow>
               (case crawler_close sourceId c w2 of
                  (Some e, w3) \<Rightarrow> (Inl e, w3)
                | (None, w3) \<Rightarrow>
                    (case logCrawlOperation sourceId ''crawl'' ''success'' (length found)
                            (length mainArticles) w3 of
                       (Inl e, w4) \<Rightarrow> (Inl e, w4)
                     | (Inr u, w4) \<Rightarrow>
                         (case logCrawlHistory
                                 \<lparr>hist_source_id = sourceId, total_found = length found,
                                   total_processed = length found,
                                   new_articles = length mainArticles,
                                   hist_crawl_depth = crawlDepth\<rparr> w4 of
                            (Inl e, w5) \<Rightarrow> (Inl e, w5)
                          | (Inr u, w5) \<Rightarrow>
                              (Inr \<lparr>res_source = src_name src, res_sourceId = sourceId,
                                    res_crawlerType = crawler_type_or_default src,
                                    res_totalArticles = length mainArticles,
                                    res_newArticles = length mainArticles,
                                    res_internalArticles = 0,
                                    res_articles = take 5 mainArticles\<rparr>, w5))))))"

text \<open>\<open>catch (crawlerError) { await crawler.close(); throw crawlerError; }\<close>\<close>

definition crawl_with_crawler ::
  "(string \<Rightarrow> string) \<Rightarrow> nat \<Rightarrow> source \<Rightarrow> crawler \<Rightarrow> js_number \<Rightarrow> bool \<Rightarrow> js_value \<Rightarrow> world
     \<Rightarrow> (js_error + crawl_success) \<times> world" where
  "crawl_with_crawler md5 sourceId src c limit fullContent crawlDepth w =
     (case crawl_and_store md5 sourceId src c limit fullContent crawlDepth w of
        (Inr r, w1) \<Rightarrow> (Inr r, w1)
      | (Inl e, w1) \<Rightarrow>
          (case crawler_close sourceId c w1 of
             (Some e2, w2) \<Rightarrow> (Inl e2, w2)
           | (None, w2) \<Rightarrow> (Inl e, w2)))"

text \<open>The outer \<open>try\<close> of \<open>crawlSource\<close>; \<open>Inl\<close> is what its \<open>catch\<close> receives.\<close>

definition crawlSource_try ::
  "(string \<Rightarrow> string) \<Rightarrow> (source \<Rightarrow> crawler) \<Rightarrow> nat \<Rightarrow> js_number \<Rightarrow> bool \<Rightarrow> js_value \<Rightarrow> world
     \<Rightarrow> (failure_reason + crawl_success) \<times> world" where
  "crawlSource_try md5 createCrawler sourceId limit fullContent crawlDepth w =
     (case getSource sourceId w of
        (Inl e, w1) \<Rightarrow> (Inl (Thrown e), w1)
      | (Inr None, w1) \<Rightarrow> (Inl (SourceNotFound sourceId), w1)
      | (Inr (Some src), w1) \<Rightarrow>
          (case logCrawlOperation sourceId ''start'' ''running'' 0 0 w1 of
             (Inl e, w2) \<Rightarrow> (Inl (Thrown e), w2)
           | (Inr u, w2) \<Rightarrow>
               (case crawl_with_crawler md5 sourceId src (createCrawler src) limit fullContent
                       crawlDepth w2 of
                  (Inl e, w3) \<Rightarrow> (Inl (Thrown e), w3)
                | (Inr r, w3) \<Rightarrow> (Inr r, w3))))"

text \<open>After validation the limit is a number; no other value reaches the backend.\<close>

definition number_of :: "js_value \<Rightarrow> js_number" where
  "number_of v = (case v of JNum n \<Rightarrow> n | _ \<Rightarrow> NaN)"

text \<open>
  \<open>UniversalCrawler.crawlSource\<close>, with the factory \<open>createCrawler\<close> as a parameter. It
  never throws: every path returns a result object.
\<close>

definition crawlSource ::
  "(string \<Rightarrow> string) \<Rightarrow> (source \<Rightarrow> crawler) \<Rightarrow> nat \<Rightarrow> crawl_options \<Rightarrow> world
     \<Rightarrow> crawl_result \<times> world" where
  "crawlSource md5 createCrawler sourceId options w0 =
     (let w = log_event (CrawlSourceCalled sourceId options) w0;
          limit = default_to (JNum (Fin 10)) (opt_limit options);
          crawlDepth = default_to (JNum (Fin 0)) (opt_crawlDepth options);
          fullContent = default_to (JBool True) (opt_fullContent options);
          validation = validateCrawlOptions options
      in if \<not> isValid validation
         then (Failure (InvalidSettings (errors validation)) sourceId,
               log_event (CrawlSourceReturned sourceId False) w)
         else (case crawlSource_try md5 createCrawler sourceId (number_of limit)
                      (truthy fullContent) crawlDepth w of
                 (Inr r, w1) \<Rightarrow> (Success r, log_event (CrawlSourceReturned sourceId True) w1)
               | (Inl reason, w1) \<Rightarrow>
                   (Failure reason sourceId,
                    log_event (CrawlSourceReturned sourceId False)
                      (snd (logCrawlOperation sourceId ''crawl'' ''error'' 0 0 w1)))))"

section \<open>The fetch backends\<close>

text \<open>
  A loaded page is seen through its selector queries only. An element carries its
  \<open>textContent\<close>, its \<open>href\<close> attribute (\<open>getAttribute('href')\<close>, \<open>$(el).attr('href')\<close>) and
  its resolved \<open>href\<close> property. A document maps a selector to the elements it matches,
  in document order, or to the error the query throws for a selector it rejects.
  \<open>querySelector\<close> and \<open>.first()\<close> are the head of that list.
\<close>

record element =
  textContent :: string
  attr_href :: "string option"
  prop_href :: string

type_synonym document = "string \<Rightarrow> js_error + element list"

datatype wait_until = NetworkIdle2 | DomContentLoaded | Load

record url =
  url_protocol :: string
  url_host :: string
  url_origin :: string
  url_href :: string

text \<open>What \<open>page.goto('about:blank')\<close> and \<open>page.close()\<close> throw on this page, if anything.\<close>

record page =
  page_id :: nat
  reset_error :: "js_error option"
  close_error :: "js_error option"

text \<open>
  The libraries and the network, as parameters: the MD5 digest; \<open>page.goto\<close> with its
  wait condition and \<open>axios.get\<close> followed by \<open>cheerio.load\<close>, each giving the document
  or the error thrown; \<open>new URL(u)\<close> and \<open>new URL(u, base)\<close> (\<open>None\<close>: it throws);
  \<open>puppeteer.launch\<close>; \<open>browser.newPage\<close> with \<open>setupPageOptimizations\<close> for the n-th
  page; \<open>browser.close\<close>.
\<close>

record env =
  hash_md5 :: "string \<Rightarrow> string"
  goto :: "string \<Rightarrow> wait_until \<Rightarrow> js_error + document"
  http_get :: "string \<Rightarrow> js_error + document"
  parse_url :: "string \<Rightarrow> url option"
  resolve_url :: "string \<Rightarrow> string \<Rightarrow> url option"
  launch :: "js_error option"
  new_page :: "nat \<Rightarrow> js_error + page"
  browser_close :: "js_error option"

definition invalid_url :: js_error where
  "invalid_url = Error ''Invalid URL''"

text \<open>\<open>BaseCrawler.normalizeUrl\<close>\<close>

definition normalizeUrl :: "env \<Rightarrow> string \<Rightarrow> string \<Rightarrow> js_error + string" where
  "normalizeUrl env u baseUrl =
     (if startsWith u ''http'' then Inr u
      else if startsWith u ''/'' then
        (case parse_url env baseUrl of
           None \<Rightarrow> Inl invalid_url
         | Some b \<Rightarrow> Inr (url_protocol b @ ''//'' @ url_host b @ u))
      else (case resolve_url env u baseUrl of
              None \<Rightarrow> Inl invalid_url
            | Some r \<Rightarrow> Inr (url_href r)))"

subsection \<open>The page pool\<close>

text \<open>
  The pool of \<open>PuppeteerCrawler\<close> and of \<open>UniversalCrawler\<close> (the same code twice):
  \<open>pagePool\<close> is the array of idle pages, pushed and popped at its end. \<open>launched\<close> says
  whether \<open>this.browser\<close> is set, \<open>created\<close> counts the pages made, \<open>closed\<close> lists the
  pages \<open>close()\<close> was called on, and \<open>visited\<close> the URLs \<open>extractArticleContent\<close>
  navigated to.
\<close>

record browser =
  pagePool :: "page list"
  launched :: bool
  created :: nat
  closed :: "page list"
  visited :: "string list"

definition new_browser :: browser where
  "new_browser = \<lparr>pagePool = [], launched = False, created = 0, closed = [], visited = []\<rparr>"

definition maxConcurrentPages :: nat where
  "maxConcurrentPages = 5"

definition initBrowser :: "env \<Rightarrow> browser \<Rightarrow> js_error option \<times> browser" where
  "initBrowser env b =
     (if launched b then (None, b)
      else (case launch env of Some e \<Rightarrow> (Some e, b) | None \<Rightarrow> (None, b\<lparr>launched := True\<rparr>)))"

definition getOrCreatePage :: "env \<Rightarrow> browser \<Rightarrow> (js_error + page) \<times> browser" where
  "getOrCreatePage env b =
     (if length (pagePool b) > 0
      then (Inr (last (pagePool b)), b\<lparr>pagePool := butlast (pagePool b)\<rparr>)
      else (case initBrowser env b of
              (Some e, b1) \<Rightarrow> (Inl e, b1)
            | (None, b1) \<Rightarrow>
                (case new_page env (created b1) of
                   Inl e \<Rightarrow> (Inl e, b1)
                 | Inr p \<Rightarrow> (Inr p, b1\<lparr>created := Suc (created b1)\<rparr>))))"

definition page_close :: "page \<Rightarrow> browser \<Rightarrow> js_error option \<times> browser" where
  "page_close p b = (close_error p, b\<lparr>closed := closed b @ [p]\<rparr>)"

text \<open>
  \<open>releasePage\<close>, run without another task in between; the result is the error it
  throws, if any.
\<close>

definition releasePage :: "page \<Rightarrow> browser \<Rightarrow> js_error option \<times> browser" where
  "releasePage p b =
     (if length (pagePool b) < maxConcurrentPages
      then (case reset_error p of
              None \<Rightarrow> (None, b\<lparr>pagePool := pagePool b @ [p]\<rparr>)
            | Some e \<Rightarrow> page_close p b)
      else page_close p b)"

text \<open>
  \<open>releasePage\<close> is an \<open>async\<close> function: it tests the pool's length, then awaits
  \<open>page.goto('about:blank')\<close>, and pushes the page when that promise settles. Other tasks
  of the single-threaded event loop run during the await. The pool with tasks in between
  is a sequence of steps: \<open>Acquire\<close> is a whole \<open>getOrCreatePage\<close> of an existing pool
  page or a whole creation; \<open>ReleaseBegin p\<close> is \<open>releasePage(p)\<close> up to its await (or,
  at capacity, the close); \<open>ReleaseResume p\<close> is the rest of it, for a page whose reset is
  pending.
\<close>

datatype pool_step = Acquire | ReleaseBegin page | ReleaseResume page

record pool_state =
  pool_browser :: browser
  resetting :: "page list"

definition pool_do :: "env \<Rightarrow> pool_step \<Rightarrow> pool_state \<Rightarrow> pool_state" where
  "pool_do env s st =
     (case s of
        Acquire \<Rightarrow> st\<lparr>pool_browser := snd (getOrCreatePage env (pool_browser st))\<rparr>
      | ReleaseBegin p \<Rightarrow>
          if length (pagePool (pool_browser st)) < maxConcurrentPages
          then st\<lparr>resetting := resetting st @ [p]\<rparr>
          else st\<lparr>pool_browser := snd (page_close p (pool_browser st))\<rparr>
      | ReleaseResume p \<Rightarrow>
          if p \<in> set (resetting st)
          then (case reset_error p of
                  None \<Rightarrow> st\<lparr>pool_browser := (pool_browser st)\<lparr>pagePool := pagePool (pool_browser st) @ [p]\<rparr>,
                             resetting := remove1 p (resetting st)\<rparr>
                | Some e \<Rightarrow> st\<lparr>pool_browser := snd (page_close p (pool_browser st)),
                              resetting := remove1 p (resetting st)\<rparr>)
          else st)"

definition pool_run :: "env \<Rightarrow> pool_step list \<Rightarrow> pool_state \<Rightarrow> pool_state" where
  "pool_run env steps st = foldl (\<lambda>s step. pool_do env step s) st steps"

subsection \<open>Link discovery and the loop bound\<close>

text \<open>The \<open>href\<close> attributes of the list matches, the empty and the missing ones dropped.\<close>

definition hrefs :: "element list \<Rightarrow> string list" where
  "hrefs els =
     List.map_filter (\<lambda>el. case attr_href el of None \<Rightarrow> None
                                | Some h \<Rightarrow> if h = [] then None else Some h) els"

text \<open>
  How often \<open>for (let i = 0; i < Math.min(n, limit); i++)\<close> runs: \<open>Math.min\<close> with
  \<open>NaN\<close> is \<open>NaN\<close>, and \<open>i < NaN\<close> is false.
\<close>

fun loop_count :: "nat \<Rightarrow> js_number \<Rightarrow> nat" where
  "loop_count n (Fin r) = min n (nat \<lceil>r\<rceil>)"
| "loop_count n NaN = 0"
| "loop_count n PosInfinity = n"
| "loop_count n NegInfinity = 0"

subsection \<open>PuppeteerCrawler\<close>

text \<open>
  The function run in the page by \<open>page.evaluate\<close> for one article: the trimmed text of
  the first title match, and the trimmed texts of all content matches joined by a blank.
  The content selector is queried whenever it is set.
\<close>

definition puppeteer_evaluate :: "document \<Rightarrow> string \<Rightarrow> string \<Rightarrow> js_error + string \<times> string" where
  "puppeteer_evaluate doc titleSelector contentSelector =
     (case doc titleSelector of
        Inl e \<Rightarrow> Inl e
      | Inr titleEls \<Rightarrow>
          (let title = (case titleEls of [] \<Rightarrow> [] | titleEl # rest \<Rightarrow> trim (textContent titleEl)) in
           if contentSelector \<noteq> []
           then (case doc contentSelector of
                   Inl e \<Rightarrow> Inl e
                 | Inr contentEls \<Rightarrow>
                     Inr (title, join '' '' (map (\<lambda>el. trim (textContent el)) contentEls)))
           else Inr (title, [])))"

text \<open>
  What one iteration pushes onto \<open>articles\<close> once the article page is loaded: nothing
  when the evaluation throws (the inner \<open>catch\<close>) or the title is empty.
\<close>

definition puppeteer_extract :: "(string \<Rightarrow> string) \<Rightarrow> source \<Rightarrow> bool \<Rightarrow> string \<Rightarrow> document \<Rightarrow> article list" where
  "puppeteer_extract md5 src fullContent link doc =
     (case puppeteer_evaluate doc (title_selector src) (content_selector src) of
        Inl e \<Rightarrow> []
      | Inr (title, content) \<Rightarrow>
          if title \<noteq> []
          then [\<lparr>art_title = title, art_link = link,
                 art_content = (if fullContent then content else []),
                 art_hash = Some (BaseCrawler_generateHash md5 title link), art_depth = None\<rparr>]
          else [])"

definition PuppeteerCrawler_item :: "env \<Rightarrow> source \<Rightarrow> bool \<Rightarrow> string \<Rightarrow> article list" where
  "PuppeteerCrawler_item env src fullContent link =
     (case goto env link NetworkIdle2 of
        Inl e \<Rightarrow> []
      | Inr doc \<Rightarrow> puppeteer_extract (hash_md5 env) src fullContent link doc)"

text \<open>
  The \<open>for\<close> loop over the links it will visit. \<open>normalizeUrl\<close> is called outside the
  inner \<open>try\<close>: an error of it leaves the loop and the crawl.
\<close>

fun PuppeteerCrawler_loop :: "env \<Rightarrow> source \<Rightarrow> bool \<Rightarrow> string list \<Rightarrow> js_error + article list" where
  "PuppeteerCrawler_loop env src fullContent [] = Inr []"
| "PuppeteerCrawler_loop env src fullContent (l # ls) =
     (case normalizeUrl env l (base_url src) of
        Inl e \<Rightarrow> Inl e
      | Inr link \<Rightarrow>
          (case PuppeteerCrawler_loop env src fullContent ls of
             Inl e \<Rightarrow> Inl e
           | Inr rest \<Rightarrow> Inr (PuppeteerCrawler_item env src fullContent link @ rest)))"

definition PuppeteerCrawler_try :: "env \<Rightarrow> source \<Rightarrow> js_number \<Rightarrow> bool \<Rightarrow> js_error + article list" where
  "PuppeteerCrawler_try env src limit fullContent =
     (case goto env (base_url src) NetworkIdle2 of
        Inl e \<Rightarrow> Inl e
      | Inr doc \<Rightarrow>
          (case doc (list_selector src) of
             Inl e \<Rightarrow> Inl e
           | Inr els \<Rightarrow>
               PuppeteerCrawler_loop env src fullContent
                 (take (loop_count (length (hrefs els)) limit) (hrefs els))))"

text \<open>
  \<open>PuppeteerCrawler.crawl\<close>: the page is taken before the \<open>try\<close> and released in its
  \<open>finally\<close>; an error thrown by the release replaces the outcome of the body.
\<close>

definition PuppeteerCrawler_crawl ::
  "env \<Rightarrow> source \<Rightarrow> js_number \<Rightarrow> bool \<Rightarrow> browser \<Rightarrow> (js_error + article list) \<times> browser" where
  "PuppeteerCrawler_crawl env src limit fullContent b =
     (case getOrCreatePage env b of
        (Inl e, b1) \<Rightarrow> (Inl e, b1)
      | (Inr p, b1) \<Rightarrow>
          (let outcome = PuppeteerCrawler_try env src limit fullContent in
           case releasePage p b1 of
             (Some e, b2) \<Rightarrow> (Inl e, b2)
           | (None, b2) \<Rightarrow> (outcome, b2)))"

text \<open>
  The crawler \<open>crawlSource\<close> gets for a Puppeteer source: a new object with an empty pool.
  Its \<open>close()\<close> swallows the errors of closing pool pages and calls \<open>browser.close()\<close>
  when the browser was launched.
\<close>

definition PuppeteerCrawler :: "env \<Rightarrow> source \<Rightarrow> crawler" where
  "PuppeteerCrawler env src =
     \<lparr>crawl = (\<lambda>limit fullContent. fst (PuppeteerCrawler_crawl env src limit fullContent new_browser)),
      close = (case launch env of None \<Rightarrow> browser_close env | Some e \<Rightarrow> None)\<rparr>"

subsection \<open>CheerioCrawler\<close>

text \<open>
  One iteration on a loaded article page: the trimmed text of the first title match;
  the content selector is queried only when \<open>fullContent\<close> holds and it is set.
\<close>

definition cheerio_extract :: "(string \<Rightarrow> string) \<Rightarrow> source \<Rightarrow> bool \<Rightarrow> string \<Rightarrow> document \<Rightarrow> article list" where
  "cheerio_extract md5 src fullContent link doc =
     (case doc (title_selector src) of
        Inl e \<Rightarrow> []
      | Inr titleEls \<Rightarrow>
          (let title = trim (case titleEls of [] \<Rightarrow> [] | el # rest \<Rightarrow> textContent el) in
           case (if fullContent \<and> content_selector src \<noteq> []
                 then (case doc (content_selector src) of
                         Inl e \<Rightarrow> Inl e
                       | Inr contentEls \<Rightarrow>
                           Inr (join '' '' (map (\<lambda>el. trim (textContent el)) contentEls)))
                 else Inr []) of
             Inl e \<Rightarrow> []
           | Inr content \<Rightarrow>
               if title \<noteq> []
               then [\<lparr>art_title = title, art_link = link, art_content = content,
                      art_hash = Some (BaseCrawler_generateHash md5 title link), art_depth = None\<rparr>]
               else []))"

definition CheerioCrawler_item :: "env \<Rightarrow> source \<Rightarrow> bool \<Rightarrow> string \<Rightarrow> article list" where
  "CheerioCrawler_item env src fullContent link =
     (case http_get env link of
        Inl e \<Rightarrow> []
      | Inr doc \<Rightarrow> cheerio_extract (hash_md5 env) src fullContent link doc)"

text \<open>Every link is normalized while the list is collected, before the limit applies.\<close>

fun normalize_all :: "env \<Rightarrow> string \<Rightarrow> string list \<Rightarrow> js_error + string list" where
  "normalize_all env baseUrl [] = Inr []"
| "normalize_all env baseUrl (h # hs) =
     (case normalizeUrl env h baseUrl of
        Inl e \<Rightarrow> Inl e
      | Inr l \<Rightarrow>
          (case normalize_all env baseUrl hs of
             Inl e \<Rightarrow> Inl e
           | Inr ls \<Rightarrow> Inr (l # ls)))"

definition CheerioCrawler_crawl :: "env \<Rightarrow> source \<Rightarrow> js_number \<Rightarrow> bool \<Rightarrow> js_error + article list" where
  "CheerioCrawler_crawl env src limit fullContent =
     (case http_get env (base_url src) of
        Inl e \<Rightarrow> Inl e
      | Inr doc \<Rightarrow>
          (case doc (list_selector src) of
             Inl e \<Rightarrow> Inl e
           | Inr els \<Rightarrow>
               (case normalize_all env (base_url src) (hrefs els) of
                  Inl e \<Rightarrow> Inl e
                | Inr links \<Rightarrow>
                    Inr (concat (map (CheerioCrawler_item env src fullContent)
                                   (take (loop_count (length links) limit) links))))))"

definition CheerioCrawler :: "env \<Rightarrow> source \<Rightarrow> crawler" where
  "CheerioCrawler env src = \<lparr>crawl = CheerioCrawler_crawl env src, close = None\<rparr>"

subsection \<open>The factory\<close>

definition toLowerCase :: "string \<Rightarrow> string" where
  "toLowerCase s =
     map (\<lambda>c. if (65::nat) \<le> of_char c \<and> of_char c \<le> (90::nat)
               then char_of (of_char c + (32::nat)) else c) s"

text \<open>
  \<open>createCrawler\<close>. The Playwright and Selenium classes are not modelled: their crawlers
  are parameters (\<open>WebDriverCrawler\<close> is \<open>SeleniumCrawler\<close>).
\<close>

definition createCrawler :: "env \<Rightarrow> (source \<Rightarrow> crawler) \<Rightarrow> (source \<Rightarrow> crawler) \<Rightarrow> source \<Rightarrow> crawler" where
  "createCrawler env PlaywrightCrawler SeleniumCrawler src =
     (let crawlerType = toLowerCase (crawler_type_or_default src) in
      if crawlerType = ''cheerio'' then CheerioCrawler env src
      else if crawlerType = ''playwright'' then PlaywrightCrawler src
      else if crawlerType = ''selenium'' then SeleniumCrawler src
      else if crawlerType = ''webdriver'' then SeleniumCrawler src
      else PuppeteerCrawler env src)"

section \<open>Link follow-up of UniversalCrawler\<close>

text \<open>The two fixed titles, \<open>'bedune onvan'\<close> (untitled) and \<open>'khata dar estekhraj'\<close>
  (extraction error), as the UTF-8 bytes of their Persian text.\<close>

definition untitled :: string where
  "untitled = [CHR 0xD8, CHR 0xA8, CHR 0xD8, CHR 0xAF, CHR 0xD9, CHR 0x88, CHR 0xD9, CHR 0x86,
     CHR 0x20, CHR 0xD8, CHR 0xB9, CHR 0xD9, CHR 0x86, CHR 0xD9, CHR 0x88, CHR 0xD8, CHR 0xA7,
     CHR 0xD9, CHR 0x86]"

definition extraction_error_title :: string where
  "extraction_error_title = [CHR 0xD8, CHR 0xAE, CHR 0xD8, CHR 0xB7, CHR 0xD8, CHR 0xA7, CHR 0x20,
     CHR 0xD8, CHR 0xAF, CHR 0xD8, CHR 0xB1, CHR 0x20, CHR 0xD8, CHR 0xA7, CHR 0xD8, CHR 0xB3,
     CHR 0xD8, CHR 0xAA, CHR 0xD8, CHR 0xAE, CHR 0xD8, CHR 0xB1, CHR 0xD8, CHR 0xA7, CHR 0xD8,
     CHR 0xAC]"

definition alternativeSelectors :: "string list" where
  "alternativeSelectors =
     [''h1'', ''h2'', ''.title'', ''.headline'',
      ''[class*='' @ [CHR 0x22] @ ''title'' @ [CHR 0x22] @ '']'',
      ''[class*='' @ [CHR 0x22] @ ''headline'' @ [CHR 0x22] @ '']'']"

text \<open>
  The fallback of the title: the first alternative selector whose first match has a
  trimmed text longer than 10, else the empty string.
\<close>

fun first_alternative :: "document \<Rightarrow> string list \<Rightarrow> js_error + string" where
  "first_alternative doc [] = Inr []"
| "first_alternative doc (altSelector # others) =
     (case doc altSelector of
        Inl e \<Rightarrow> Inl e
      | Inr [] \<Rightarrow> first_alternative doc others
      | Inr (altElement # rest) \<Rightarrow>
          if length (trim (textContent altElement)) > 10
          then Inr (trim (textContent altElement))
          else first_alternative doc others)"

record link_info =
  li_url :: string
  li_text :: string

record extracted =
  ex_title :: string
  ex_content :: string
  ex_internalLinks :: "link_info list"

definition extraction_failed :: extracted where
  "extraction_failed = \<lparr>ex_title = extraction_error_title, ex_content = [], ex_internalLinks = []\<rparr>"

text \<open>Two-stage navigation: \<open>domcontentloaded\<close> first, then once more with \<open>load\<close>.\<close>

definition navigate :: "env \<Rightarrow> string \<Rightarrow> js_error + document" where
  "navigate env u =
     (case goto env u DomContentLoaded of
        Inr doc \<Rightarrow> Inr doc
      | Inl navError \<Rightarrow> goto env u Load)"

definition is_internal_link :: "string \<Rightarrow> element \<Rightarrow> bool" where
  "is_internal_link baseUrl el =
     (prop_href el \<noteq> [] \<and> str_includes (prop_href el) baseUrl \<and>
      \<not> str_includes (prop_href el) ''#'' \<and> \<not> str_includes (prop_href el) ''javascript:'')"

text \<open>
  \<open>extractArticleContent\<close>, from the page loaded to the object returned. Any error thrown
  on the way is caught and gives the fixed error object.
\<close>

definition extract_from :: "env \<Rightarrow> string \<Rightarrow> source \<Rightarrow> document \<Rightarrow> extracted" where
  "extract_from env u selectors doc =
     (case (if title_selector selectors \<noteq> []
            then (case doc (title_selector selectors) of
                    Inl e \<Rightarrow> Inl e
                  | Inr [] \<Rightarrow> first_alternative doc alternativeSelectors
                  | Inr (el # rest) \<Rightarrow> Inr (trim (textContent el)))
            else Inr []) of
        Inl e \<Rightarrow> extraction_failed
      | Inr title \<Rightarrow>
          (case (if content_selector selectors \<noteq> []
                 then (case doc (content_selector selectors) of
                         Inl e \<Rightarrow> Inl e
                       | Inr els \<Rightarrow> Inr (join [CHR 0x0A] (map (\<lambda>el. trim (textContent el)) els)))
                 else Inr []) of
             Inl e \<Rightarrow> extraction_failed
           | Inr content \<Rightarrow>
               (case parse_url env u of
                  None \<Rightarrow> extraction_failed
                | Some parsed \<Rightarrow>
                    (case doc (if link_selector selectors = [] then ''a'' else link_selector selectors) of
                       Inl e \<Rightarrow> extraction_failed
                     | Inr els \<Rightarrow>
                         \<lparr>ex_title = (if title = [] then untitled else title),
                          ex_content = content,
                          ex_internalLinks =
                            take 3 (map (\<lambda>el. \<lparr>li_url = prop_href el, li_text = trim (textContent el)\<rparr>)
                                      (filter (is_internal_link (url_origin parsed)) els))\<rparr>))))"

definition extractArticleContent :: "env \<Rightarrow> string \<Rightarrow> source \<Rightarrow> browser \<Rightarrow> extracted \<times> browser" where
  "extractArticleContent env u selectors b =
     (case navigate env u of
        Inl e \<Rightarrow> (extraction_failed, b\<lparr>visited := visited b @ [u]\<rparr>)
      | Inr doc \<Rightarrow> (extract_from env u selectors doc, b\<lparr>visited := visited b @ [u]\<rparr>))"

text \<open>
  One task of a chunk of \<open>crawlInternalLinks\<close>: a page of its own, the extraction, the
  article at depth \<open>currentDepth + 1\<close>, \<open>saveArticle\<close>, and the release in \<open>finally\<close>. The
  value is the article when it was new; a task that throws (no page, or the release
  fails) is rejected and gives nothing.
\<close>

definition crawl_link ::
  "env \<Rightarrow> nat \<Rightarrow> source \<Rightarrow> nat \<Rightarrow> link_info \<Rightarrow> world \<times> browser \<Rightarrow> article option \<times> world \<times> browser" where
  "crawl_link env sourceId selectors currentDepth linkInfo st =
     (case getOrCreatePage env (snd st) of
        (Inl e, b1) \<Rightarrow> (None, fst st, b1)
      | (Inr dedicatedPage, b1) \<Rightarrow>
          (let (articleData, b2) = extractArticleContent env (li_url linkInfo) selectors b1;
               a = \<lparr>art_title = ex_title articleData, art_link = li_url linkInfo,
                    art_content = ex_content articleData, art_hash = None,
                    art_depth = Some (currentDepth + 1)\<rparr>;
               (saveResult, w1) = saveArticle (hash_md5 env) sourceId a (fst st);
               val = (case saveResult of Inl e \<Rightarrow> None
                      | Inr r \<Rightarrow> if isNew r then Some a else None);
               (released, b3) = releasePage dedicatedPage b2
           in ((case released of Some e \<Rightarrow> None | None \<Rightarrow> val), w1, b3)))"

text \<open>
  A chunk. Its tasks start together and interleave at their awaits; they are run here
  one after the other, in the order of the chunk.
\<close>

fun crawl_chunk ::
  "env \<Rightarrow> nat \<Rightarrow> source \<Rightarrow> nat \<Rightarrow> link_info list \<Rightarrow> world \<times> browser \<Rightarrow> article list \<times> world \<times> browser" where
  "crawl_chunk env sourceId selectors currentDepth [] st = ([], st)"
| "crawl_chunk env sourceId selectors currentDepth (l # ls) st =
     (let (v, st1) = crawl_link env sourceId selectors currentDepth l st;
          (vs, st2) = crawl_chunk env sourceId selectors currentDepth ls st1
      in ((case v of None \<Rightarrow> [] | Some a \<Rightarrow> [a]) @ vs, st2))"

text \<open>\<open>for (let i = 0; i < linksToProcess.length; i += chunkSize)\<close> with \<open>chunkSize = 2\<close>.\<close>

function crawl_chunks ::
  "env \<Rightarrow> nat \<Rightarrow> source \<Rightarrow> nat \<Rightarrow> link_info list \<Rightarrow> world \<times> browser \<Rightarrow> article list \<times> world \<times> browser" where
  "crawl_chunks env sourceId selectors currentDepth ls st =
     (if ls = [] then ([], st)
      else (let (r1, st1) = crawl_chunk env sourceId selectors currentDepth (take 2 ls) st;
                (r2, st2) = crawl_chunks env sourceId selectors currentDepth (drop 2 ls) st1
            in (r1 @ r2, st2)))"
  by pat_completeness auto
termination
  by (relation "measure (\<lambda>(env, sourceId, selectors, currentDepth, ls, st). length ls)") auto

definition crawlInternalLinks ::
  "env \<Rightarrow> link_info list \<Rightarrow> nat \<Rightarrow> source \<Rightarrow> nat \<Rightarrow> nat \<Rightarrow> world \<times> browser
     \<Rightarrow> article list \<times> world \<times> browser" where
  "crawlInternalLinks env links sourceId selectors currentDepth maxDepth st =
     (if currentDepth \<ge> maxDepth \<or> links = [] then ([], st)
      else crawl_chunks env sourceId selectors currentDepth (take 2 links) st)"

section \<open>Scheduler\<close>

text \<open>
  \<open>getScheduleById\<close>: \<open>SELECT ... FROM schedules s ... WHERE s.id = ?\<close>. The trace
  records that the row was read.
\<close>

definition getScheduleById :: "nat \<Rightarrow> world \<Rightarrow> (js_error + schedule option) \<times> world" where
  "getScheduleById i w =
     (case next_fault (log_event (ScheduleRead i) w) of
        (Some e, w1) \<Rightarrow> (Inl e, w1)
      | (None, w1) \<Rightarrow> (Inr (find (\<lambda>s. sch_id s = i) (schedules w1)), w1))"

text \<open>
  \<open>updateLastRun\<close>: \<open>UPDATE schedules SET last_run = CURRENT_TIMESTAMP WHERE id = ?\<close>.
  The clock is logical: the time of a statement is the number of actions traced before
  it ends. The trace records that the statement was issued.
\<close>

definition updateLastRun :: "nat \<Rightarrow> world \<Rightarrow> (js_error + unit) \<times> world" where
  "updateLastRun i w =
     (case next_fault (log_event (LastRunUpdated i) w) of
        (Some e, w1) \<Rightarrow> (Inl e, w1)
      | (None, w1) \<Rightarrow>
          (Inr (), w1\<lparr>schedules :=
             map (\<lambda>s. if sch_id s = i then s\<lparr>last_run := Some (length (trace w1))\<rparr> else s)
               (schedules w1)\<rparr>))"

text \<open>The \<open>crawlOptions\<close> object both \<open>startJob\<close>'s callback and \<open>runJob\<close> build from a row.\<close>

definition schedule_crawlOptions :: "schedule \<Rightarrow> crawl_options" where
  "schedule_crawlOptions s =
     \<lparr>opt_limit = js_or (article_limit s) (JNum (Fin 10)),
      opt_crawlDepth = (if crawl_depth s \<noteq> JUndefined then crawl_depth s else JNum (Fin 0)),
      opt_fullContent = js_or (full_content s) (JBool False),
      opt_waitTime = JUndefined,
      opt_timeout = js_or (timeout_ms s) (JNum (Fin 300000)),
      opt_navigationTimeout = JUndefined,
      opt_followLinks = JBool (follow_links s \<noteq> JBool False)\<rparr>"

text \<open>
  \<open>this.crawler.crawlSource\<close>, as the scheduler calls it: a result, or the error of a
  rejected promise.
\<close>

type_synonym crawl_fn = "nat \<Rightarrow> crawl_options \<Rightarrow> world \<Rightarrow> (js_error + crawl_result) \<times> world"

definition crawlSource_fn :: "(string \<Rightarrow> string) \<Rightarrow> (source \<Rightarrow> crawler) \<Rightarrow> crawl_fn" where
  "crawlSource_fn md5 factory sourceId options w =
     (Inr (fst (crawlSource md5 factory sourceId options w)),
      snd (crawlSource md5 factory sourceId options w))"

text \<open>
  \<open>try { await crawlSource(...); await updateLastRun(...) } catch (error) { log }\<close>,
  the same in the cron callback and in the detached task of \<open>runJob\<close>.
\<close>

definition run_scheduled_crawl :: "crawl_fn \<Rightarrow> schedule \<Rightarrow> world \<Rightarrow> world" where
  "run_scheduled_crawl crawler_crawlSource freshSchedule w =
     (case crawler_crawlSource (sch_source_id freshSchedule) (schedule_crawlOptions freshSchedule) w of
        (Inl e, w1) \<Rightarrow> w1
      | (Inr r, w1) \<Rightarrow> snd (updateLastRun (sch_id freshSchedule) w1))"

text \<open>
  The callback \<open>startJob(schedule)\<close> hands to \<open>cron.schedule\<close>; \<open>captured\<close> is the
  \<open>schedule\<close> object of that call, which the closure keeps.
\<close>

definition cron_callback :: "crawl_fn \<Rightarrow> schedule \<Rightarrow> world \<Rightarrow> world" where
  "cron_callback crawler_crawlSource captured w =
     (case getScheduleById (sch_id captured) w of
        (Inl e, w1) \<Rightarrow> w1
      | (Inr None, w1) \<Rightarrow> w1
      | (Inr (Some freshSchedule), w1) \<Rightarrow> run_scheduled_crawl crawler_crawlSource freshSchedule w1)"

definition runJob :: "crawl_fn \<Rightarrow> nat \<Rightarrow> world \<Rightarrow> world" where
  "runJob crawler_crawlSource scheduleId w =
     (case getScheduleById scheduleId w of
        (Inl e, w1) \<Rightarrow> w1
      | (Inr None, w1) \<Rightarrow> w1
      | (Inr (Some sched), w1) \<Rightarrow> run_scheduled_crawl crawler_crawlSource sched w1)"

text \<open>\<open>this.jobs\<close>: the running job of a schedule id, with the object its callback captured.\<close>

record scheduler =
  jobs :: "nat \<Rightarrow> schedule option"

definition startJob :: "schedule \<Rightarrow> scheduler \<Rightarrow> scheduler" where
  "startJob s sch = sch\<lparr>jobs := (jobs sch)(sch_id s \<mapsto> s)\<rparr>"

definition stopJob :: "nat \<Rightarrow> scheduler \<Rightarrow> scheduler" where
  "stopJob scheduleId sch = sch\<lparr>jobs := (jobs sch)(scheduleId := None)\<rparr>"

text \<open>A fire of the job of a schedule id: node-cron calls the callback of the running job.\<close>

definition cron_fire :: "crawl_fn \<Rightarrow> scheduler \<Rightarrow> nat \<Rightarrow> world \<Rightarrow> world" where
  "cron_fire crawler_crawlSource sch scheduleId w =
     (case jobs sch scheduleId of
        None \<Rightarrow> w
      | Some captured \<Rightarrow> cron_callback crawler_crawlSource captured w)"

section \<open>Notions used in the properties\<close>

text \<open>A list of events that are calls of the backend of source \<open>sid\<close> only.\<close>

definition backend_events :: "nat \<Rightarrow> event list \<Rightarrow> bool" where
  "backend_events sid evs = list_all (\<lambda>e. e = CrawlerCrawl sid \<or> e = CrawlerClose sid) evs"

text \<open>The rows table \<open>articles\<close> has in \<open>w'\<close> beyond those of \<open>w\<close>.\<close>

definition added_rows :: "world \<Rightarrow> world \<Rightarrow> article_row list" where
  "added_rows w w' = drop (length (articles w)) (articles w')"

text \<open>\<open>article.depth || 0\<close>\<close>

definition depth_or_0 :: "article \<Rightarrow> nat" where
  "depth_or_0 a = (case art_depth a of None \<Rightarrow> 0 | Some d \<Rightarrow> d)"

text \<open>
  \<open>depth > crawlDepth\<close> for the \<open>crawlDepth\<close> of the options (0 when left out); taken to
  hold for a \<open>crawlDepth\<close> that is no number.
\<close>

definition exceeds_crawlDepth :: "js_value \<Rightarrow> nat \<Rightarrow> bool" where
  "exceeds_crawlDepth v d =
     (case default_to (JNum (Fin 0)) v of JNum n \<Rightarrow> num_lt n (real d) | _ \<Rightarrow> True)"

text \<open>A crawler whose articles carry no \<open>depth\<close> field, as those of the backends do.\<close>

definition depthless :: "crawler \<Rightarrow> bool" where
  "depthless c = (\<forall>lmt fc found. crawl c lmt fc = Inr found \<longrightarrow> list_all (\<lambda>a. art_depth a = None) found)"

text \<open>Table \<open>articles\<close> of \<open>w'\<close> is that of \<open>w\<close> with rows appended that all satisfy \<open>P\<close>.\<close>

definition grows_by :: "(article_row \<Rightarrow> bool) \<Rightarrow> world \<Rightarrow> world \<Rightarrow> bool" where
  "grows_by P w w' = (\<exists>rows. articles w' = articles w @ rows \<and> list_all P rows)"




section \<open>Example data\<close>

definition no_options :: crawl_options where
  "no_options = \<lparr>opt_limit = JUndefined, opt_crawlDepth = JUndefined, opt_fullContent = JUndefined,
     opt_waitTime = JUndefined, opt_timeout = JUndefined, opt_navigationTimeout = JUndefined,
     opt_followLinks = JUndefined\<rparr>"

definition ex_source :: source where
  "ex_source = \<lparr>src_id = 1, src_name = ''news'', base_url = ''http://a/'', list_selector = ''a.item'',
     title_selector = ''h1'', content_selector = ''p'', link_selector = ''a'', active = True,
     crawler_type = ''cheerio''\<rparr>"

definition ex_world1 :: world where
  "ex_world1 = \<lparr>articles = [], articles_lastID = 0, news_sources = [ex_source], schedules = [],
     crawl_logs = [], crawl_history = [], faults = [], trace = []\<rparr>"

text \<open>A backend that finds no article and closes without error.\<close>

definition idle_crawler :: "source \<Rightarrow> crawler" where
  "idle_crawler src = \<lparr>crawl = (\<lambda>limit fullContent. Inr []), close = None\<rparr>"

definition ex_page :: "nat \<Rightarrow> page" where
  "ex_page n = \<lparr>page_id = n, reset_error = None, close_error = None\<rparr>"


definition ex_schedule :: schedule where
  "ex_schedule = \<lparr>sch_id = 3, sch_source_id = 1, cron_expression = ''*/10 * * * *'',
     is_active = JBool True, crawl_depth = JNum (Fin 0), full_content = JBool False,
     article_limit = JNum (Fin 5), timeout_ms = JNum (Fin 300000), follow_links = JBool True,
     last_run = None\<rparr>"

text \<open>The stored row after an edit of \<open>article_limit\<close> to \<open>n\<close>.\<close>

definition ex_world2 :: "real \<Rightarrow> world" where
  "ex_world2 n = ex_world1\<lparr>schedules := [ex_schedule\<lparr>article_limit := JNum (Fin n)\<rparr>]\<rparr>"

text \<open>A schedule for a source that does not exist: its crawl fails.\<close>

definition ex_world3 :: world where
  "ex_world3 = ex_world1\<lparr>schedules := [ex_schedule\<lparr>sch_source_id := 9\<rparr>]\<rparr>"

definition no_jobs :: scheduler where
  "no_jobs = \<lparr>jobs = (\<lambda>i. None)\<rparr>"

text \<open>An edit of the stored \<open>article_limit\<close> of a schedule, made by the API between fires.\<close>

definition edit_article_limit :: "nat \<Rightarrow> js_value \<Rightarrow> world \<Rightarrow> world" where
  "edit_article_limit i v w =
     w\<lparr>schedules := map (\<lambda>s. if sch_id s = i then s\<lparr>article_limit := v\<rparr> else s) (schedules w)\<rparr>"

text \<open>
  An article page with a heading and two paragraphs. The source's title selector
  \<open>.headline-main\<close> matches nothing on it, the query \<open>p[\<close> is rejected.
\<close>

definition ex_article_doc :: document where
  "ex_article_doc sel =
     (if sel = ''h1'' then Inr [\<lparr>textContent = '' A long enough heading '', attr_href = None, prop_href = []\<rparr>]
      else if sel = ''p'' then Inr [\<lparr>textContent = ''First. '', attr_href = None, prop_href = []\<rparr>,
                                    \<lparr>textContent = ''Second.'', attr_href = None, prop_href = []\<rparr>]
      else if sel = ''p['' then Inl (Error ''SyntaxError'')
      else Inr [])"

text \<open>
  A small site: the list page \<open>http://a/\<close> offers five items \<open>/n1\<close> to \<open>/n5\<close>, every
  article page is \<open>ex_article_doc\<close>, and the navigation to \<open>http://a/n3\<close> times out.
\<close>

definition ex_list_doc :: document where
  "ex_list_doc sel =
     (if sel = ''a.item''
      then Inr (map (\<lambda>h. \<lparr>textContent = ''item'', attr_href = Some h, prop_href = ''http://a'' @ h\<rparr>)
                  [''/n1'', ''/n2'', ''/n3'', ''/n4'', ''/n5''])
      else Inr [])"

definition ex_fetch :: "string \<Rightarrow> js_error + document" where
  "ex_fetch u =
     (if u = ''http://a/'' then Inr ex_list_doc
      else if u = ''http://a/n3'' then Inl (Error ''net::ERR_TIMED_OUT'')
      else if startsWith u ''http://a/n'' then Inr ex_article_doc
      else Inl (Error ''net::ERR_NAME_NOT_RESOLVED''))"

definition site_env :: env where
  "site_env = \<lparr>hash_md5 = rev, goto = (\<lambda>u wait. ex_fetch u), http_get = ex_fetch,
     parse_url = (\<lambda>u. if startsWith u ''http://a/''
                       then Some \<lparr>url_protocol = ''http:'', url_host = ''a'', url_origin = ''http://a'',
                                  url_href = u\<rparr>
                       else None),
     resolve_url = (\<lambda>u base. None), launch = None, new_page = (\<lambda>n. Inr (ex_page n)),
     browser_close = None\<rparr>"

definition ex_links :: "link_info list" where
  "ex_links = [\<lparr>li_url = ''http://a/n1'', li_text = ''one''\<rparr>,
               \<lparr>li_url = ''http://a/n2'', li_text = ''two''\<rparr>,
               \<lparr>li_url = ''http://a/n4'', li_text = ''four''\<rparr>]"





section \<open>Properties: fingerprint and saveArticle\<close>

lemma startsWith_str_includes: "startsWith s p \<Longrightarrow> str_includes s p"
  by (cases s) (auto simp: startsWith_def)

lemma str_includes_append: "str_includes (xs @ p @ ys) p"
proof (induction xs)
  case Nil
  have "startsWith (p @ ys) p" by (simp add: startsWith_def)
  then show ?case by (simp add: startsWith_str_includes)
next
  case (Cons x xs)
  then show ?case by simp
qed

lemma unique_errors_classified:
  "is_unique_violation (sqlite_unique_error col) \<and> is_unique_violation (pg_unique_error c)"
proof -
  have "str_includes (''SQLITE_CONSTRAINT: '' @ ''UNIQUE constraint failed'' @ ('': '' @ col))
          ''UNIQUE constraint failed''"
    by (rule str_includes_append)
  moreover have "str_includes ([] @ ''duplicate key'' @ ('' value violates unique constraint '' @ c))
          ''duplicate key''"
    by (rule str_includes_append)
  ultimately show ?thesis
    by (simp add: is_unique_violation_def sqlite_unique_error_def pg_unique_error_def)
qed

lemma next_fault_articles: "next_fault w = (f, w') \<Longrightarrow> articles w' = articles w"
  by (auto simp: next_fault_def split: list.splits)

lemma find_list_ex: "list_ex P xs \<Longrightarrow> \<exists>x. find P xs = Some x \<and> P x"
  by (induction xs) auto

lemma find_None_list_ex: "\<not> list_ex P xs \<Longrightarrow> find P xs = None"
  by (induction xs) auto

text \<open>
  C1. The fingerprint of a pair (title, link) is the MD5 hex digest of the concatenated
  string \<open>title + link\<close> and of nothing else: the method of \<open>UniversalCrawler\<close> and the one
  every backend inherits from \<open>BaseCrawler\<close> compute the same value, it takes no source,
  depth or state, and two pairs with the same concatenation have the same fingerprint.
\<close>

theorem generateHash_is_md5_of_concatenation:
  "generateHash md5 t l = md5 (t @ l) \<and>
   BaseCrawler_generateHash md5 t l = generateHash md5 t l \<and>
   (t @ l = t' @ l' \<longrightarrow> generateHash md5 t l = generateHash md5 t' l')"
  by (simp add: generateHash_def BaseCrawler_generateHash_def)

theorem generateHash_is_md5_of_concatenation_witness:
  "''ab'' @ ''c'' = ''a'' @ ''bc'' \<and> generateHash rev ''ab'' ''c'' = ''cba'' \<and>
   generateHash rev ''ab'' ''c'' = generateHash rev ''a'' ''bc''"
  using generateHash_is_md5_of_concatenation [of rev "''ab''" "''c''" "''a''" "''bc''"]
  by (simp add: generateHash_def)

text \<open>
  C2. \<open>saveArticle\<close> first looks the article up by fingerprint or by link. When the lookup
  runs and a stored row has the fingerprint or the link, the result is \<open>isNew = false\<close>
  with a stored id, and table \<open>articles\<close> is left as it was. When no row matches and the
  insert raises an error that the drivers give for a violated unique constraint, the
  result is \<open>{id: null, isNew: false}\<close>, not a rethrown error, and no row was added.
\<close>

theorem saveArticle_already_exists:
  "(fst (next_fault w) = None \<and>
    list_ex (\<lambda>r. row_hash r = generateHash md5 (art_title a) (art_link a) \<or> row_link r = art_link a)
      (articles w)
    \<longrightarrow> (\<exists>i. fst (saveArticle md5 sid a w) = Inr \<lparr>saved_id = Some i, isNew = False\<rparr>) \<and>
        articles (snd (saveArticle md5 sid a w)) = articles w) \<and>
   (faults w = None # Some e # fs \<and>
    \<not> list_ex (\<lambda>r. row_hash r = generateHash md5 (art_title a) (art_link a) \<or> row_link r = art_link a)
      (articles w) \<and>
    (is_unique_violation e \<or> e = sqlite_unique_error col \<or> e = pg_unique_error c)
    \<longrightarrow> saveArticle md5 sid a w = (Inr \<lparr>saved_id = None, isNew = False\<rparr>, w\<lparr>faults := fs\<rparr>))"
proof (intro conjI impI)
  assume h: "fst (next_fault w) = None \<and>
    list_ex (\<lambda>r. row_hash r = generateHash md5 (art_title a) (art_link a) \<or> row_link r = art_link a)
      (articles w)"
  then obtain r where r: "find (\<lambda>r. row_hash r = generateHash md5 (art_title a) (art_link a) \<or> row_link r = art_link a)
      (articles w) = Some r"
    using find_list_ex by blast
  from h obtain w1 where nf: "next_fault w = (None, w1)"
    by (metis prod.collapse)
  have a: "articles w1 = articles w"
    using nf by (rule next_fault_articles)
  have s: "saveArticle md5 sid a w = (Inr \<lparr>saved_id = Some (row_id r), isNew = False\<rparr>, w1)"
    using nf r a by (simp add: saveArticle_def select_article_id_def Let_def)
  show "\<exists>i. fst (saveArticle md5 sid a w) = Inr \<lparr>saved_id = Some i, isNew = False\<rparr>"
    using s by simp
  show "articles (snd (saveArticle md5 sid a w)) = articles w"
    using s a by simp
next
  assume h: "faults w = None # Some e # fs \<and>
    \<not> list_ex (\<lambda>r. row_hash r = generateHash md5 (art_title a) (art_link a) \<or> row_link r = art_link a)
      (articles w) \<and>
    (is_unique_violation e \<or> e = sqlite_unique_error col \<or> e = pg_unique_error c)"
  then have f: "find (\<lambda>r. row_hash r = generateHash md5 (art_title a) (art_link a) \<or> row_link r = art_link a)
      (articles w) = None"
    using find_None_list_ex by blast
  from h have u: "is_unique_violation e"
    using unique_errors_classified by blast
  show "saveArticle md5 sid a w = (Inr \<lparr>saved_id = None, isNew = False\<rparr>, w\<lparr>faults := fs\<rparr>)"
    using h f u
    by (simp add: saveArticle_def select_article_id_def insert_or_ignore_article_def next_fault_def
        saveArticle_catch_def Let_def)
qed

theorem saveArticle_already_exists_witness:
  "fst (saveArticle rev 1 \<lparr>art_title = ''New title'', art_link = ''http://a/1'', art_content = ''c'',
         art_hash = None, art_depth = None\<rparr> ex_world) = Inr \<lparr>saved_id = Some 7, isNew = False\<rparr> \<and>
   articles (snd (saveArticle rev 1 \<lparr>art_title = ''New title'', art_link = ''http://a/1'', art_content = ''c'',
         art_hash = None, art_depth = None\<rparr> ex_world)) = [ex_row] \<and>
   saveArticle rev 1 \<lparr>art_title = ''T'', art_link = ''http://a/2'', art_content = ''c'',
         art_hash = None, art_depth = None\<rparr>
      (ex_world\<lparr>faults := [None, Some (sqlite_unique_error ''articles.link'')]\<rparr>)
     = (Inr \<lparr>saved_id = None, isNew = False\<rparr>, ex_world)"
proof -
  let ?a = "\<lparr>art_title = ''New title'', art_link = ''http://a/1'', art_content = ''c'',
         art_hash = None, art_depth = None\<rparr>"
  let ?b = "\<lparr>art_title = ''T'', art_link = ''http://a/2'', art_content = ''c'',
         art_hash = None, art_depth = None\<rparr>"
  let ?e = "sqlite_unique_error ''articles.link''"
  let ?w = "ex_world\<lparr>faults := [None, Some ?e]\<rparr>"
  have h1: "fst (next_fault ex_world) = None \<and>
    list_ex (\<lambda>r. row_hash r = generateHash rev (art_title ?a) (art_link ?a) \<or> row_link r = art_link ?a)
      (articles ex_world)"
    by (simp add: next_fault_def ex_world_def ex_row_def)
  have h2: "faults ?w = None # Some ?e # [] \<and>
    \<not> list_ex (\<lambda>r. row_hash r = generateHash rev (art_title ?b) (art_link ?b) \<or> row_link r = art_link ?b)
      (articles ?w) \<and>
    (is_unique_violation ?e \<or> ?e = sqlite_unique_error ''articles.link'' \<or> ?e = pg_unique_error [])"
    by (simp add: ex_world_def ex_row_def generateHash_def)
  have c1: "(\<exists>i. fst (saveArticle rev 1 ?a ex_world) = Inr \<lparr>saved_id = Some i, isNew = False\<rparr>) \<and>
        articles (snd (saveArticle rev 1 ?a ex_world)) = articles ex_world"
    using saveArticle_already_exists [where w = ex_world and ?md5.0 = rev and a = ?a and sid = 1] h1
    by blast
  have c2: "saveArticle rev 1 ?b ?w = (Inr \<lparr>saved_id = None, isNew = False\<rparr>, ?w\<lparr>faults := []\<rparr>)"
    using saveArticle_already_exists [where w = ?w and e = ?e and fs = "[]" and ?md5.0 = rev
        and a = ?b and sid = 1 and col = "''articles.link''" and c = "[]"] h2
    by blast
  have i: "fst (saveArticle rev 1 ?a ex_world) = Inr \<lparr>saved_id = Some 7, isNew = False\<rparr>"
    by (simp add: saveArticle_def select_article_id_def next_fault_def ex_world_def ex_row_def Let_def)
  show ?thesis using c1 c2 i by (simp add: ex_world_def)
qed

section \<open>The trace of a crawl\<close>


lemma next_fault_trace: "trace (snd (next_fault w)) = trace w"
  by (simp add: next_fault_def split: list.splits)

lemma next_fault_trace': "next_fault w = (f, w') \<Longrightarrow> trace w' = trace w"
  using next_fault_trace [of w] by simp

lemma saveArticle_trace: "trace (snd (saveArticle md5 sid a w)) = trace w"
  by (auto simp: saveArticle_def select_article_id_def insert_or_ignore_article_def
      saveArticle_catch_def Let_def next_fault_def split: list.splits option.splits)

lemma save_articles_trace: "trace (snd (save_articles md5 sid as w)) = trace w"
proof (induction as arbitrary: w)
  case Nil
  show ?case by simp
next
  case (Cons a as)
  obtain r w1 where s: "saveArticle md5 sid a w = (r, w1)" by (cases "saveArticle md5 sid a w")
  then have t: "trace w1 = trace w" using saveArticle_trace [of md5 sid a w] by simp
  show ?case
  proof (cases r)
    case (Inl e)
    then show ?thesis using s t by simp
  next
    case (Inr res)
    obtain r2 w2 where s2: "save_articles md5 sid as w1 = (r2, w2)"
      by (cases "save_articles md5 sid as w1")
    then have "trace w2 = trace w1" using Cons.IH [of w1] by simp
    then show ?thesis using s t s2 Inr by (cases r2) simp_all
  qed
qed

lemma logCrawlOperation_trace: "trace (snd (logCrawlOperation sid a s n m w)) = trace w"
  by (simp add: logCrawlOperation_def next_fault_def split: list.splits option.splits)

lemma logCrawlHistory_trace: "trace (snd (logCrawlHistory h w)) = trace w"
  by (simp add: logCrawlHistory_def next_fault_def split: list.splits option.splits)

lemma getSource_trace: "trace (snd (getSource sid w)) = trace w"
  by (simp add: getSource_def next_fault_def split: list.splits option.splits)

lemma crawl_and_store_trace:
  "\<exists>evs. trace (snd (crawl_and_store md5 sid src c lmt fc d w)) = trace w @ evs \<and> backend_events sid evs"
proof (cases "crawl c lmt fc")
  case (Inl e)
  then show ?thesis
    by (simp add: crawl_and_store_def log_event_def backend_events_def)
next
  case (Inr found)
  let ?w1 = "log_event (CrawlerCrawl sid) w"
  obtain r2 w2 where s: "save_articles md5 sid found ?w1 = (r2, w2)"
    by (cases "save_articles md5 sid found ?w1")
  then have t2: "trace w2 = trace w @ [CrawlerCrawl sid]"
    using save_articles_trace [of md5 sid found ?w1] by (simp add: log_event_def)
  show ?thesis
  proof (cases r2)
    case (Inl e)
    then show ?thesis using Inr s t2
      by (simp add: crawl_and_store_def backend_events_def)
  next
    case (Inr mainArticles)
    note r2 = this
    show ?thesis
    proof (cases "close c")
      case (Some e)
      then show ?thesis using \<open>crawl c lmt fc = Inr found\<close> s t2 r2
        by (simp add: crawl_and_store_def crawler_close_def log_event_def backend_events_def)
    next
      case None
      let ?w3 = "log_event (CrawlerClose sid) w2"
      obtain r4 w4 where l: "logCrawlOperation sid ''crawl'' ''success'' (length found) (length mainArticles) ?w3 = (r4, w4)"
        by (cases "logCrawlOperation sid ''crawl'' ''success'' (length found) (length mainArticles) ?w3")
      then have t4: "trace w4 = trace w @ [CrawlerCrawl sid, CrawlerClose sid]"
        using logCrawlOperation_trace [of sid "''crawl''" "''success''" "length found" "length mainArticles" ?w3] t2
        by (simp add: log_event_def)
      show ?thesis
      proof (cases r4)
        case (Inl e)
        then show ?thesis using \<open>crawl c lmt fc = Inr found\<close> s r2 None l t4
          by (simp add: crawl_and_store_def crawler_close_def backend_events_def)
      next
        case (Inr u)
        let ?h = "\<lparr>hist_source_id = sid, total_found = length found, total_processed = length found,
                   new_articles = length mainArticles, hist_crawl_depth = d\<rparr>"
        obtain r5 w5 where h: "logCrawlHistory ?h w4 = (r5, w5)"
          by (cases "logCrawlHistory ?h w4")
        then have t5: "trace w5 = trace w @ [CrawlerCrawl sid, CrawlerClose sid]"
          using logCrawlHistory_trace [of ?h w4] t4 by simp
        show ?thesis using \<open>crawl c lmt fc = Inr found\<close> s r2 None l Inr h t5
          by (cases r5) (simp_all add: crawl_and_store_def crawler_close_def backend_events_def)
      qed
    qed
  qed
qed


lemma backend_events_append:
  "backend_events sid xs \<Longrightarrow> backend_events sid ys \<Longrightarrow> backend_events sid (xs @ ys)"
  by (simp add: backend_events_def)

lemma crawl_with_crawler_trace:
  "\<exists>evs. trace (snd (crawl_with_crawler md5 sid src c lmt fc d w)) = trace w @ evs \<and> backend_events sid evs"
proof -
  obtain r w1 where s: "crawl_and_store md5 sid src c lmt fc d w = (r, w1)"
    by (cases "crawl_and_store md5 sid src c lmt fc d w")
  then obtain evs where e: "trace w1 = trace w @ evs" "backend_events sid evs"
    using crawl_and_store_trace [of md5 sid src c lmt fc d w] by auto
  show ?thesis
  proof (cases r)
    case (Inr res)
    then show ?thesis using s e by (auto simp: crawl_with_crawler_def)
  next
    case (Inl err)
    have "trace (snd (crawl_with_crawler md5 sid src c lmt fc d w)) = trace w @ (evs @ [CrawlerClose sid])"
      using s Inl e by (simp add: crawl_with_crawler_def crawler_close_def log_event_def split: option.splits)
    moreover have "backend_events sid (evs @ [CrawlerClose sid])"
      using e by (simp add: backend_events_def)
    ultimately show ?thesis by blast
  qed
qed

lemma crawlSource_try_trace:
  "\<exists>evs. trace (snd (crawlSource_try md5 f sid lmt fc d w)) = trace w @ evs \<and> backend_events sid evs"
proof -
  obtain r1 w1 where g: "getSource sid w = (r1, w1)" by (cases "getSource sid w")
  then have t1: "trace w1 = trace w" using getSource_trace [of sid w] by simp
  have nil: "backend_events sid []" by (simp add: backend_events_def)
  show ?thesis
  proof (cases r1)
    case (Inl e)
    then show ?thesis using g t1 nil by (simp add: crawlSource_try_def)
  next
    case (Inr so)
    show ?thesis
    proof (cases so)
      case None
      then show ?thesis using g t1 nil Inr by (simp add: crawlSource_try_def)
    next
      case (Some src)
      obtain r2 w2 where l: "logCrawlOperation sid ''start'' ''running'' 0 0 w1 = (r2, w2)"
        by (cases "logCrawlOperation sid ''start'' ''running'' 0 0 w1")
      then have t2: "trace w2 = trace w"
        using logCrawlOperation_trace [of sid "''start''" "''running''" 0 0 w1] t1 by simp
      show ?thesis
      proof (cases r2)
        case (Inl e)
        then show ?thesis using g Inr Some l t2 nil by (simp add: crawlSource_try_def)
      next
        case (Inr u)
        obtain r3 w3 where c: "crawl_with_crawler md5 sid src (f src) lmt fc d w2 = (r3, w3)"
          by (cases "crawl_with_crawler md5 sid src (f src) lmt fc d w2")
        then obtain evs where e: "trace w3 = trace w2 @ evs" "backend_events sid evs"
          using crawl_with_crawler_trace [of md5 sid src "f src" lmt fc d w2] by auto
        have "snd (crawlSource_try md5 f sid lmt fc d w) = w3"
          using g \<open>r1 = Inr so\<close> Some l Inr c by (cases r3) (simp_all add: crawlSource_try_def)
        then show ?thesis using e t2 by auto
      qed
    qed
  qed
qed

lemma crawlSource_trace:
  "\<exists>evs. trace (snd (crawlSource md5 f sid opts w)) =
      trace w @ CrawlSourceCalled sid opts # evs @
        [CrawlSourceReturned sid (success (fst (crawlSource md5 f sid opts w)))] \<and>
      backend_events sid evs"
proof (cases "isValid (validateCrawlOptions opts)")
  case False
  have "backend_events sid []" by (simp add: backend_events_def)
  moreover have "trace (snd (crawlSource md5 f sid opts w)) =
      trace w @ CrawlSourceCalled sid opts # [] @
        [CrawlSourceReturned sid (success (fst (crawlSource md5 f sid opts w)))]"
    using False by (simp add: crawlSource_def Let_def log_event_def)
  ultimately show ?thesis by blast
next
  case True
  let ?w = "log_event (CrawlSourceCalled sid opts) w"
  let ?lmt = "number_of (default_to (JNum (Fin 10)) (opt_limit opts))"
  let ?fc = "truthy (default_to (JBool True) (opt_fullContent opts))"
  let ?d = "default_to (JNum (Fin 0)) (opt_crawlDepth opts)"
  obtain r w1 where t: "crawlSource_try md5 f sid ?lmt ?fc ?d ?w = (r, w1)"
    by (cases "crawlSource_try md5 f sid ?lmt ?fc ?d ?w")
  then obtain evs where e: "trace w1 = trace ?w @ evs" "backend_events sid evs"
    using crawlSource_try_trace [of md5 f sid ?lmt ?fc ?d ?w] by auto
  have "trace (snd (crawlSource md5 f sid opts w)) =
      trace w @ CrawlSourceCalled sid opts # evs @
        [CrawlSourceReturned sid (success (fst (crawlSource md5 f sid opts w)))]"
  proof (cases r)
    case (Inr res)
    then show ?thesis using True t e by (simp add: crawlSource_def Let_def log_event_def)
  next
    case (Inl reason)
    then show ?thesis using True t e
      logCrawlOperation_trace [of sid "''crawl''" "''error''" 0 0 w1]
      by (simp add: crawlSource_def Let_def log_event_def)
  qed
  then show ?thesis using e by blast
qed

section \<open>Properties: option validation\<close>

lemma out_of_range_Fin: "out_of_range (JNum (Fin x)) lo hi \<longleftrightarrow> \<not> (lo \<le> x \<and> x \<le> hi)"
  by (auto simp: out_of_range_def)

text \<open>
  An invalid options object is refused before anything else happens: the result carries
  the collected violations, and the world is unchanged but for the call and the return
  in the trace (no statement was issued, no backend was made or called).
\<close>

lemma crawlSource_invalid:
  "\<not> isValid (validateCrawlOptions opts) \<Longrightarrow>
   crawlSource md5 f sid opts w =
     (Failure (InvalidSettings (errors (validateCrawlOptions opts))) sid,
      w\<lparr>trace := trace w @ [CrawlSourceCalled sid opts, CrawlSourceReturned sid False]\<rparr>)"
  by (simp add: crawlSource_def Let_def log_event_def)

text \<open>
  For finite numbers the validation is exact: the options are valid only inside the four
  ranges, and each range that is left is reported.
\<close>

lemma validateCrawlOptions_finite:
  assumes "opt_limit opts = JNum (Fin l)" and "opt_crawlDepth opts = JNum (Fin d)"
    and "opt_timeout opts = JNum (Fin t)" and "opt_waitTime opts = JNum (Fin wt)"
  shows "(isValid (validateCrawlOptions opts) \<longrightarrow>
            1 \<le> l \<and> l \<le> 100 \<and> 0 \<le> d \<and> d \<le> 5 \<and> 30000 \<le> t \<and> t \<le> 900000 \<and>
            1000 \<le> wt \<and> wt \<le> 30000) \<and>
         (LimitRange \<in> set (errors (validateCrawlOptions opts)) \<longleftrightarrow> \<not> (1 \<le> l \<and> l \<le> 100)) \<and>
         (CrawlDepthRange \<in> set (errors (validateCrawlOptions opts)) \<longleftrightarrow> \<not> (0 \<le> d \<and> d \<le> 5)) \<and>
         (TimeoutRange \<in> set (errors (validateCrawlOptions opts)) \<longleftrightarrow> \<not> (30000 \<le> t \<and> t \<le> 900000)) \<and>
         (WaitTimeRange \<in> set (errors (validateCrawlOptions opts)) \<longleftrightarrow> \<not> (1000 \<le> wt \<and> wt \<le> 30000))"
  using assms
  by (simp add: validateCrawlOptions_def Let_def default_to_def out_of_range_Fin)

lemma validateCrawlOptions_example:
  "validateCrawlOptions (no_options\<lparr>opt_limit := JNum (Fin 0), opt_crawlDepth := JNum (Fin 6),
       opt_timeout := JNum (Fin 100)\<rparr>) =
     \<lparr>isValid = False, errors = [LimitRange, CrawlDepthRange, TimeoutRange]\<rparr>"
  by (simp add: validateCrawlOptions_def no_options_def default_to_def out_of_range_def Let_def)

text \<open>
  C3. The claim fails for \<open>NaN\<close>, which \<open>parseInt\<close> of a non-numeric query parameter
  hands to \<open>crawlSource\<close>: \<open>typeof NaN\<close> is \<open>'number'\<close> and both \<open>NaN < 1\<close> and
  \<open>NaN > 100\<close> are false, so \<open>{limit: NaN}\<close> passes the validation with no error
  although the limit is not in [1, 100], and the run goes on to call the backend.
\<close>

theorem validateCrawlOptions_accepts_NaN:
  "validateCrawlOptions (no_options\<lparr>opt_limit := JNum NaN\<rparr>) = \<lparr>isValid = True, errors = []\<rparr> \<and>
   fst (crawlSource md5 idle_crawler 1 (no_options\<lparr>opt_limit := JNum NaN\<rparr>) ex_world1)
     = Success \<lparr>res_source = ''news'', res_sourceId = 1, res_crawlerType = ''cheerio'',
         res_totalArticles = 0, res_newArticles = 0, res_internalArticles = 0, res_articles = []\<rparr> \<and>
   trace (snd (crawlSource md5 idle_crawler 1 (no_options\<lparr>opt_limit := JNum NaN\<rparr>) ex_world1))
     = [CrawlSourceCalled 1 (no_options\<lparr>opt_limit := JNum NaN\<rparr>), CrawlerCrawl 1, CrawlerClose 1,
        CrawlSourceReturned 1 True]"
  by (simp add: validateCrawlOptions_def no_options_def default_to_def out_of_range_def Let_def
      crawlSource_def crawlSource_try_def getSource_def next_fault_def log_event_def ex_world1_def
      ex_source_def logCrawlOperation_def crawl_with_crawler_def crawl_and_store_def idle_crawler_def
      crawler_close_def logCrawlHistory_def number_of_def crawler_type_or_default_def)

section \<open>Properties: what a crawl adds to table articles\<close>


lemma grows_by_refl: "articles w' = articles w \<Longrightarrow> grows_by P w w'"
  by (simp add: grows_by_def)

lemma grows_by_trans: "grows_by P w w1 \<Longrightarrow> grows_by P w1 w2 \<Longrightarrow> grows_by P w w2"
  by (auto simp: grows_by_def)

lemma grows_by_mono: "grows_by P w w' \<Longrightarrow> (\<And>r. P r \<Longrightarrow> Q r) \<Longrightarrow> grows_by Q w w'"
  by (auto simp: grows_by_def list_all_iff)

lemma grows_by_added:
  "grows_by P w w' \<Longrightarrow> articles w' = articles w @ added_rows w w' \<and> list_all P (added_rows w w')"
  by (auto simp: grows_by_def added_rows_def)

lemma saveArticle_grows:
  "grows_by (\<lambda>r. row_depth r = depth_or_0 a) w (snd (saveArticle md5 sid a w))"
  by (auto simp: grows_by_def saveArticle_def select_article_id_def insert_or_ignore_article_def
      saveArticle_catch_def Let_def next_fault_def depth_or_0_def split: list.splits option.splits)

lemma save_articles_grows:
  "grows_by (\<lambda>r. \<exists>a \<in> set as. row_depth r = depth_or_0 a) w (snd (save_articles md5 sid as w))"
proof (induction as arbitrary: w)
  case Nil
  show ?case by (simp add: grows_by_def)
next
  case (Cons a as)
  let ?P = "\<lambda>r. \<exists>x \<in> set (a # as). row_depth r = depth_or_0 x"
  obtain r w1 where s: "saveArticle md5 sid a w = (r, w1)" by (cases "saveArticle md5 sid a w")
  have g1: "grows_by ?P w w1"
    using saveArticle_grows [of a w md5 sid] s by (auto intro: grows_by_mono)
  show ?case
  proof (cases r)
    case (Inl e)
    then show ?thesis using s g1 by simp
  next
    case (Inr res)
    obtain r2 w2 where s2: "save_articles md5 sid as w1 = (r2, w2)"
      by (cases "save_articles md5 sid as w1")
    have "grows_by ?P w1 w2"
      using Cons.IH [of w1] s2 by (auto intro: grows_by_mono)
    then have "grows_by ?P w w2" using g1 grows_by_trans by blast
    then show ?thesis using s s2 Inr by (cases r2) simp_all
  qed
qed

lemma logCrawlOperation_articles: "articles (snd (logCrawlOperation sid a s n m w)) = articles w"
  by (simp add: logCrawlOperation_def next_fault_def split: list.splits option.splits)

lemma logCrawlHistory_articles: "articles (snd (logCrawlHistory h w)) = articles w"
  by (simp add: logCrawlHistory_def next_fault_def split: list.splits option.splits)

lemma getSource_articles: "articles (snd (getSource sid w)) = articles w"
  by (simp add: getSource_def next_fault_def split: list.splits option.splits)

lemma log_event_articles: "articles (log_event e w) = articles w"
  by (simp add: log_event_def)

lemma logCrawlOperation_articles':
  "logCrawlOperation sid a s n m w = (r, w') \<Longrightarrow> articles w' = articles w"
  using logCrawlOperation_articles [of sid a s n m w] by simp

lemma logCrawlHistory_articles': "logCrawlHistory h w = (r, w') \<Longrightarrow> articles w' = articles w"
  using logCrawlHistory_articles [of h w] by simp

lemma getSource_articles': "getSource sid w = (r, w') \<Longrightarrow> articles w' = articles w"
  using getSource_articles [of sid w] by simp

lemma crawl_and_store_grows:
  assumes "depthless c"
  shows "grows_by (\<lambda>r. row_depth r = 0) w (snd (crawl_and_store md5 sid src c lmt fc d w))"
proof (cases "crawl c lmt fc")
  case (Inl e)
  then show ?thesis by (simp add: crawl_and_store_def grows_by_def log_event_def)
next
  case (Inr found)
  then have nd: "list_all (\<lambda>a. art_depth a = None) found"
    using assms by (auto simp: depthless_def)
  let ?w1 = "log_event (CrawlerCrawl sid) w"
  obtain r2 w2 where s: "save_articles md5 sid found ?w1 = (r2, w2)"
    by (cases "save_articles md5 sid found ?w1")
  have "grows_by (\<lambda>r. \<exists>a \<in> set found. row_depth r = depth_or_0 a) ?w1 w2"
    using save_articles_grows [of found ?w1 md5 sid] s by simp
  then have "grows_by (\<lambda>r. row_depth r = 0) ?w1 w2"
    using nd by (auto intro: grows_by_mono simp: list_all_iff depth_or_0_def)
  then have g: "grows_by (\<lambda>r. row_depth r = 0) w w2"
    by (simp add: grows_by_def log_event_def)
  have "articles (snd (crawl_and_store md5 sid src c lmt fc d w)) = articles w2"
    using Inr s
    by (auto simp: crawl_and_store_def crawler_close_def log_event_articles
        split: sum.splits option.splits prod.splits
        dest!: logCrawlOperation_articles' logCrawlHistory_articles')
  then show ?thesis using g by (simp add: grows_by_def)
qed


lemma crawl_with_crawler_grows:
  assumes "depthless c"
  shows "grows_by (\<lambda>r. row_depth r = 0) w (snd (crawl_with_crawler md5 sid src c lmt fc d w))"
proof -
  obtain r w1 where s: "crawl_and_store md5 sid src c lmt fc d w = (r, w1)"
    by (cases "crawl_and_store md5 sid src c lmt fc d w")
  then have g: "grows_by (\<lambda>r. row_depth r = 0) w w1"
    using crawl_and_store_grows [OF assms, of w md5 sid src lmt fc d] by simp
  have "articles (snd (crawl_with_crawler md5 sid src c lmt fc d w)) = articles w1"
    using s by (cases r) (simp_all add: crawl_with_crawler_def crawler_close_def log_event_def split: option.splits)
  then show ?thesis using g by (simp add: grows_by_def)
qed

lemma crawlSource_try_grows:
  assumes "\<forall>src. depthless (f src)"
  shows "grows_by (\<lambda>r. row_depth r = 0) w (snd (crawlSource_try md5 f sid lmt fc d w))"
proof -
  obtain r1 w1 where g: "getSource sid w = (r1, w1)" by (cases "getSource sid w")
  then have a1: "articles w1 = articles w" by (rule getSource_articles')
  show ?thesis
  proof (cases r1)
    case (Inl e)
    then show ?thesis using g a1 by (simp add: crawlSource_try_def grows_by_def)
  next
    case (Inr so)
    show ?thesis
    proof (cases so)
      case None
      then show ?thesis using g a1 Inr by (simp add: crawlSource_try_def grows_by_def)
    next
      case (Some src)
      obtain r2 w2 where l: "logCrawlOperation sid ''start'' ''running'' 0 0 w1 = (r2, w2)"
        by (cases "logCrawlOperation sid ''start'' ''running'' 0 0 w1")
      then have a2: "articles w2 = articles w" using a1 logCrawlOperation_articles' by fastforce
      show ?thesis
      proof (cases r2)
        case (Inl e)
        then show ?thesis using g Inr Some l a2 by (simp add: crawlSource_try_def grows_by_def)
      next
        case (Inr u)
        obtain r3 w3 where c: "crawl_with_crawler md5 sid src (f src) lmt fc d w2 = (r3, w3)"
          by (cases "crawl_with_crawler md5 sid src (f src) lmt fc d w2")
        have "grows_by (\<lambda>r. row_depth r = 0) w2 w3"
          using crawl_with_crawler_grows [of "f src" w2 md5 sid src lmt fc d] assms c by simp
        then have g3: "grows_by (\<lambda>r. row_depth r = 0) w w3" using a2 by (simp add: grows_by_def)
        have "snd (crawlSource_try md5 f sid lmt fc d w) = w3"
          using g \<open>r1 = Inr so\<close> Some l Inr c by (cases r3) (simp_all add: crawlSource_try_def)
        then show ?thesis using g3 by simp
      qed
    qed
  qed
qed

lemma crawlSource_grows:
  assumes "\<forall>src. depthless (f src)"
  shows "grows_by (\<lambda>r. row_depth r = 0 \<and> isValid (validateCrawlOptions opts)) w
           (snd (crawlSource md5 f sid opts w))"
proof (cases "isValid (validateCrawlOptions opts)")
  case False
  then show ?thesis by (simp add: crawlSource_invalid grows_by_def)
next
  case True
  let ?w = "log_event (CrawlSourceCalled sid opts) w"
  let ?lmt = "number_of (default_to (JNum (Fin 10)) (opt_limit opts))"
  let ?fc = "truthy (default_to (JBool True) (opt_fullContent opts))"
  let ?d = "default_to (JNum (Fin 0)) (opt_crawlDepth opts)"
  obtain r w1 where t: "crawlSource_try md5 f sid ?lmt ?fc ?d ?w = (r, w1)"
    by (cases "crawlSource_try md5 f sid ?lmt ?fc ?d ?w")
  have "grows_by (\<lambda>r. row_depth r = 0) ?w w1"
    using crawlSource_try_grows [OF assms, of ?w md5 sid ?lmt ?fc ?d] t by simp
  then have g: "grows_by (\<lambda>r. row_depth r = 0) w w1" by (simp add: grows_by_def log_event_def)
  have "articles (snd (crawlSource md5 f sid opts w)) = articles w1"
    using True t
    by (cases r) (simp_all add: crawlSource_def Let_def log_event_def logCrawlOperation_articles)
  then have "grows_by (\<lambda>r. row_depth r = 0) w (snd (crawlSource md5 f sid opts w))"
    using g by (simp add: grows_by_def)
  then show ?thesis using True by (auto intro: grows_by_mono)
qed

lemma valid_depth_0:
  "isValid (validateCrawlOptions opts) \<Longrightarrow> \<not> exceeds_crawlDepth (opt_crawlDepth opts) 0"
  by (cases "default_to (JNum (Fin 0)) (opt_crawlDepth opts)")
    (auto simp: validateCrawlOptions_def Let_def exceeds_crawlDepth_def out_of_range_def
      split: if_splits js_number.splits)

lemma puppeteer_extract_depthless: "list_all (\<lambda>a. art_depth a = None) (puppeteer_extract md5 src fc l doc)"
  by (simp add: puppeteer_extract_def split: sum.splits prod.splits)

lemma PuppeteerCrawler_item_depthless: "list_all (\<lambda>a. art_depth a = None) (PuppeteerCrawler_item env src fc l)"
  by (simp add: PuppeteerCrawler_item_def puppeteer_extract_depthless split: sum.splits)

lemma PuppeteerCrawler_loop_depthless:
  "PuppeteerCrawler_loop env src fc ls = Inr found \<Longrightarrow> list_all (\<lambda>a. art_depth a = None) found"
proof (induction ls arbitrary: found)
  case Nil
  then show ?case by simp
next
  case (Cons l ls)
  then show ?case
    by (auto simp: PuppeteerCrawler_item_depthless split: sum.splits)
qed

lemma PuppeteerCrawler_depthless: "depthless (PuppeteerCrawler env src)"
  by (auto simp: depthless_def PuppeteerCrawler_def PuppeteerCrawler_crawl_def PuppeteerCrawler_try_def Let_def
      split: sum.splits prod.splits option.splits dest: PuppeteerCrawler_loop_depthless)

lemma cheerio_extract_depthless: "list_all (\<lambda>a. art_depth a = None) (cheerio_extract md5 src fc l doc)"
  by (simp add: cheerio_extract_def Let_def split: sum.splits)

lemma CheerioCrawler_item_depthless: "list_all (\<lambda>a. art_depth a = None) (CheerioCrawler_item env src fc l)"
  by (simp add: CheerioCrawler_item_def cheerio_extract_depthless split: sum.splits)

lemma CheerioCrawler_depthless: "depthless (CheerioCrawler env src)"
  by (auto simp: depthless_def CheerioCrawler_def CheerioCrawler_crawl_def list_all_iff
      split: sum.splits dest: CheerioCrawler_item_depthless [unfolded list_all_iff, rule_format])

section \<open>Properties: the link follow-up\<close>


lemma extract_from_links: "length (ex_internalLinks (extract_from env u sel doc)) \<le> 3"
  by (simp add: extract_from_def extraction_failed_def split: sum.splits option.splits list.splits)

lemma extractArticleContent_links:
  "length (ex_internalLinks (fst (extractArticleContent env u sel b))) \<le> 3"
  by (simp add: extractArticleContent_def extract_from_links extraction_failed_def split: sum.splits)

lemma extractArticleContent_browser:
  "snd (extractArticleContent env u sel b) = b\<lparr>visited := visited b @ [u]\<rparr>"
  by (simp add: extractArticleContent_def split: sum.splits)

lemma getOrCreatePage_visited: "visited (snd (getOrCreatePage env b)) = visited b"
  by (simp add: getOrCreatePage_def initBrowser_def split: option.splits sum.splits prod.splits)

lemma releasePage_visited: "visited (snd (releasePage p b)) = visited b"
  by (simp add: releasePage_def page_close_def split: option.splits)

text \<open>One task: rows of depth currentDepth + 1 only, at most one navigation.\<close>

lemma crawl_link_effect:
  assumes "crawl_link env sid sel d l (w, b) = (v, w', b')"
  shows "grows_by (\<lambda>r. row_depth r = Suc d) w w' \<and>
         (\<exists>vs. visited b' = visited b @ vs \<and> length vs \<le> 1) \<and>
         (\<forall>a. v = Some a \<longrightarrow> art_depth a = Some (Suc d))"
proof -
  obtain r b1 where g: "getOrCreatePage env b = (r, b1)" by (cases "getOrCreatePage env b")
  then have v1: "visited b1 = visited b" using getOrCreatePage_visited [of env b] by simp
  show ?thesis
  proof (cases r)
    case (Inl e)
    then show ?thesis using assms g v1 by (auto simp: crawl_link_def grows_by_def)
  next
    case (Inr p)
    let ?x = "extractArticleContent env (li_url l) sel b1"
    let ?a = "\<lparr>art_title = ex_title (fst ?x), art_link = li_url l, art_content = ex_content (fst ?x),
               art_hash = None, art_depth = Some (Suc d)\<rparr>"
    let ?sv = "saveArticle (hash_md5 env) sid ?a w"
    let ?rl = "releasePage p (snd ?x)"
    have w: "w' = snd ?sv" and b: "b' = snd ?rl"
      and vv: "v = (case fst ?rl of Some e \<Rightarrow> None
                    | None \<Rightarrow> (case fst ?sv of Inl e \<Rightarrow> None
                                | Inr r \<Rightarrow> if isNew r then Some ?a else None))"
      using assms g Inr by (auto simp add: crawl_link_def Let_def case_prod_beta)
    have "grows_by (\<lambda>r. row_depth r = depth_or_0 ?a) w (snd ?sv)"
      by (rule saveArticle_grows)
    then have g1: "grows_by (\<lambda>r. row_depth r = Suc d) w w'" using w by (simp add: depth_or_0_def)
    have "visited (snd ?rl) = visited b @ [li_url l]"
      using releasePage_visited [of p "snd ?x"] v1 by (simp add: extractArticleContent_browser)
    then have g2: "\<exists>vs. visited b' = visited b @ vs \<and> length vs \<le> 1" using b by simp
    have g3: "\<forall>a. v = Some a \<longrightarrow> art_depth a = Some (Suc d)"
      using vv by (auto split: option.splits sum.splits if_splits)
    show ?thesis using g1 g2 g3 by blast
  qed
qed

lemma crawl_chunk_effect:
  "crawl_chunk env sid sel d ls (w, b) = (vs, w', b') \<Longrightarrow>
   grows_by (\<lambda>r. row_depth r = Suc d) w w' \<and>
   (\<exists>us. visited b' = visited b @ us \<and> length us \<le> length ls) \<and>
   list_all (\<lambda>a. art_depth a = Some (Suc d)) vs"
proof (induction ls arbitrary: w b vs w' b')
  case Nil
  then show ?case by (simp add: grows_by_def)
next
  case (Cons l ls)
  obtain v w1 b1 where c1: "crawl_link env sid sel d l (w, b) = (v, w1, b1)"
    by (cases "crawl_link env sid sel d l (w, b)")
  obtain vs2 w2 b2 where c2: "crawl_chunk env sid sel d ls (w1, b1) = (vs2, w2, b2)"
    by (cases "crawl_chunk env sid sel d ls (w1, b1)")
  have eq: "vs = (case v of None \<Rightarrow> [] | Some a \<Rightarrow> [a]) @ vs2" "w' = w2" "b' = b2"
    using Cons.prems c1 c2 by simp_all
  from crawl_link_effect [OF c1] obtain us1 where
    e1: "grows_by (\<lambda>r. row_depth r = Suc d) w w1" "visited b1 = visited b @ us1" "length us1 \<le> 1"
      "\<forall>a. v = Some a \<longrightarrow> art_depth a = Some (Suc d)"
    by blast
  from Cons.IH [OF c2] obtain us2 where
    e2: "grows_by (\<lambda>r. row_depth r = Suc d) w1 w2" "visited b2 = visited b1 @ us2" "length us2 \<le> length ls"
      "list_all (\<lambda>a. art_depth a = Some (Suc d)) vs2"
    by blast
  have "grows_by (\<lambda>r. row_depth r = Suc d) w w'" using e1(1) e2(1) eq grows_by_trans by blast
  moreover have "visited b' = visited b @ (us1 @ us2) \<and> length (us1 @ us2) \<le> length (l # ls)"
    using e1 e2 eq by simp
  moreover have "list_all (\<lambda>a. art_depth a = Some (Suc d)) vs"
    using e1(4) e2(4) eq by (cases v) simp_all
  ultimately show ?case by blast
qed

lemma crawl_chunks_effect:
  "crawl_chunks env sid sel d ls (w, b) = (vs, w', b') \<Longrightarrow>
   grows_by (\<lambda>r. row_depth r = Suc d) w w' \<and>
   (\<exists>us. visited b' = visited b @ us \<and> length us \<le> length ls) \<and>
   list_all (\<lambda>a. art_depth a = Some (Suc d)) vs"
proof (induction "length ls" arbitrary: ls w b vs w' b' rule: less_induct)
  case less
  show ?case
  proof (cases "ls = []")
    case True
    then show ?thesis using less.prems by (simp add: grows_by_def)
  next
    case False
    obtain r1 w1 b1 where c1: "crawl_chunk env sid sel d (take 2 ls) (w, b) = (r1, w1, b1)"
      by (cases "crawl_chunk env sid sel d (take 2 ls) (w, b)")
    obtain r2 w2 b2 where c2: "crawl_chunks env sid sel d (drop 2 ls) (w1, b1) = (r2, w2, b2)"
      by (cases "crawl_chunks env sid sel d (drop 2 ls) (w1, b1)")
    have eq: "vs = r1 @ r2" "w' = w2" "b' = b2"
      using less.prems False c1 c2 by (simp_all del: crawl_chunks.simps add: crawl_chunks.simps [of env sid sel d ls])
    from crawl_chunk_effect [OF c1] obtain us1 where
      e1: "grows_by (\<lambda>r. row_depth r = Suc d) w w1" "visited b1 = visited b @ us1"
        "length us1 \<le> length (take 2 ls)" "list_all (\<lambda>a. art_depth a = Some (Suc d)) r1"
      by blast
    have "length (drop 2 ls) < length ls" using False by (cases ls) simp_all
    from less.hyps [OF this c2] obtain us2 where
      e2: "grows_by (\<lambda>r. row_depth r = Suc d) w1 w2" "visited b2 = visited b1 @ us2"
        "length us2 \<le> length (drop 2 ls)" "list_all (\<lambda>a. art_depth a = Some (Suc d)) r2"
      by blast
    have "grows_by (\<lambda>r. row_depth r = Suc d) w w'" using e1(1) e2(1) eq grows_by_trans by blast
    moreover have "length us1 + length us2 \<le> length ls"
      using e1(3) e2(3) by simp arith
    then have "visited b' = visited b @ (us1 @ us2) \<and> length (us1 @ us2) \<le> length ls"
      using e1(2) e2(2) eq by simp
    moreover have "list_all (\<lambda>a. art_depth a = Some (Suc d)) vs" using e1(4) e2(4) eq by simp
    ultimately show ?thesis by blast
  qed
qed

section \<open>Properties: depth and fan-out\<close>

lemmas crawl_defs = validateCrawlOptions_def default_to_def out_of_range_def Let_def
  crawlSource_def crawlSource_try_def getSource_def next_fault_def log_event_def
  logCrawlOperation_def crawl_with_crawler_def crawl_and_store_def
  crawler_close_def logCrawlHistory_def number_of_def crawler_type_or_default_def
  saveArticle_def select_article_id_def insert_or_ignore_article_def saveArticle_catch_def
  generateHash_def no_options_def ex_world1_def ex_source_def

lemmas backend_defs = CheerioCrawler_crawl_def CheerioCrawler_item_def cheerio_extract_def
  PuppeteerCrawler_def PuppeteerCrawler_crawl_def PuppeteerCrawler_try_def PuppeteerCrawler_item_def
  puppeteer_extract_def puppeteer_evaluate_def CheerioCrawler_def
  hrefs_def List.map_filter_def normalizeUrl_def BaseCrawler_generateHash_def
  getOrCreatePage_def initBrowser_def releasePage_def page_close_def maxConcurrentPages_def
  new_browser_def site_env_def ex_fetch_def ex_list_doc_def ex_article_doc_def ex_page_def
  startsWith_def trim_def is_space_def

lemmas followup_defs = crawlInternalLinks_def crawl_link_def getOrCreatePage_def initBrowser_def
  releasePage_def page_close_def maxConcurrentPages_def extractArticleContent_def navigate_def
  extract_from_def extraction_failed_def is_internal_link_def saveArticle_def select_article_id_def
  insert_or_ignore_article_def saveArticle_catch_def generateHash_def next_fault_def
  site_env_def ex_fetch_def ex_article_doc_def ex_page_def ex_links_def new_browser_def
  ex_world1_def ex_source_def startsWith_def trim_def is_space_def Let_def

text \<open>
  C4. A call of \<open>crawlInternalLinks\<close> at \<open>currentDepth\<close> with bound \<open>maxDepth\<close> adds to
  table \<open>articles\<close> only rows of depth \<open>currentDepth + 1\<close>, which is at most \<open>maxDepth\<close>,
  and navigates to at most 2 links; once \<open>currentDepth\<close> has reached \<open>maxDepth\<close> it does
  nothing. \<open>extractArticleContent\<close> returns at most 3 internal links. A run of
  \<open>crawlSource\<close> with a backend whose articles carry no depth (as those of the Puppeteer
  and the Cheerio backend) adds only rows of depth 0, and none unless the options are
  valid, so that no added row has a depth greater than the \<open>crawlDepth\<close> of the run.
\<close>

theorem persisted_depth_and_fanout_bounded:
  "(crawlInternalLinks env links sid sel currentDepth maxDepth (w, b) = (res, w', b') \<longrightarrow>
      articles w' = articles w @ added_rows w w' \<and>
      list_all (\<lambda>r. row_depth r = currentDepth + 1 \<and> row_depth r \<le> maxDepth) (added_rows w w') \<and>
      (\<exists>us. visited b' = visited b @ us \<and> length us \<le> 2)) \<and>
   (maxDepth \<le> currentDepth \<longrightarrow>
      crawlInternalLinks env links sid sel currentDepth maxDepth (w, b) = ([], w, b)) \<and>
   length (ex_internalLinks (fst (extractArticleContent env u sel b))) \<le> 3 \<and>
   ((\<forall>s. depthless (f s)) \<longrightarrow>
      articles (snd (crawlSource md5 f sid opts w)) =
        articles w @ added_rows w (snd (crawlSource md5 f sid opts w)) \<and>
      list_all (\<lambda>r. row_depth r = 0 \<and> \<not> exceeds_crawlDepth (opt_crawlDepth opts) (row_depth r))
        (added_rows w (snd (crawlSource md5 f sid opts w)))) \<and>
   depthless (PuppeteerCrawler env src) \<and> depthless (CheerioCrawler env src)"
proof (intro conjI impI)
  assume c: "crawlInternalLinks env links sid sel currentDepth maxDepth (w, b) = (res, w', b')"
  have "grows_by (\<lambda>r. row_depth r = currentDepth + 1 \<and> row_depth r \<le> maxDepth) w w' \<and>
        (\<exists>us. visited b' = visited b @ us \<and> length us \<le> 2)"
  proof (cases "maxDepth \<le> currentDepth \<or> links = []")
    case True
    then have "w' = w" "b' = b" using c by (auto simp: crawlInternalLinks_def)
    then show ?thesis by (simp add: grows_by_def)
  next
    case False
    then have "crawl_chunks env sid sel currentDepth (take 2 links) (w, b) = (res, w', b')"
      using c by (simp add: crawlInternalLinks_def)
    from crawl_chunks_effect [OF this] obtain us where
      e: "grows_by (\<lambda>r. row_depth r = Suc currentDepth) w w'" "visited b' = visited b @ us"
        "length us \<le> length (take 2 links)"
      by blast
    have "grows_by (\<lambda>r. row_depth r = currentDepth + 1 \<and> row_depth r \<le> maxDepth) w w'"
      using e(1) False by (auto intro: grows_by_mono)
    moreover have "length us \<le> 2" using e(3) by simp
    ultimately show ?thesis using e(2) by blast
  qed
  then show "articles w' = articles w @ added_rows w w'"
    and "list_all (\<lambda>r. row_depth r = currentDepth + 1 \<and> row_depth r \<le> maxDepth) (added_rows w w')"
    and "\<exists>us. visited b' = visited b @ us \<and> length us \<le> 2"
    using grows_by_added by blast+
next
  assume "maxDepth \<le> currentDepth"
  then show "crawlInternalLinks env links sid sel currentDepth maxDepth (w, b) = ([], w, b)"
    by (simp add: crawlInternalLinks_def)
next
  show "length (ex_internalLinks (fst (extractArticleContent env u sel b))) \<le> 3"
    by (rule extractArticleContent_links)
next
  assume d: "\<forall>s. depthless (f s)"
  let ?w' = "snd (crawlSource md5 f sid opts w)"
  have "grows_by (\<lambda>r. row_depth r = 0 \<and> isValid (validateCrawlOptions opts)) w ?w'"
    using d by (rule crawlSource_grows)
  then have "grows_by (\<lambda>r. row_depth r = 0 \<and> \<not> exceeds_crawlDepth (opt_crawlDepth opts) (row_depth r)) w ?w'"
    by (rule grows_by_mono) (simp add: valid_depth_0)
  then show "articles ?w' = articles w @ added_rows w ?w'"
    and "list_all (\<lambda>r. row_depth r = 0 \<and> \<not> exceeds_crawlDepth (opt_crawlDepth opts) (row_depth r))
        (added_rows w ?w')"
    using grows_by_added by blast+
next
  show "depthless (PuppeteerCrawler env src)" by (rule PuppeteerCrawler_depthless)
  show "depthless (CheerioCrawler env src)" by (rule CheerioCrawler_depthless)
qed

theorem persisted_depth_and_fanout_bounded_witness:
  "map row_depth (articles (fst (snd
       (crawlInternalLinks site_env ex_links 1 ex_source 0 1 (ex_world1, new_browser))))) = [1, 1] \<and>
   visited (snd (snd (crawlInternalLinks site_env ex_links 1 ex_source 0 1 (ex_world1, new_browser))))
     = [''http://a/n1'', ''http://a/n2''] \<and>
   length ex_links = 3 \<and>
   crawlInternalLinks site_env ex_links 1 ex_source 1 1 (ex_world1, new_browser)
     = ([], ex_world1, new_browser) \<and>
   map row_depth (articles (snd (crawlSource rev (CheerioCrawler site_env) 1 no_options ex_world1)))
     = [0, 0, 0, 0]"
proof -
  let ?r = "crawlInternalLinks site_env ex_links 1 ex_source 0 1 (ex_world1, new_browser)"
  have h1: "?r = (fst ?r, fst (snd ?r), snd (snd ?r))" by simp
  have h2: "(1::nat) \<le> 1" by simp
  have h3: "\<forall>s. depthless (CheerioCrawler site_env s)" by (simp add: CheerioCrawler_depthless)
  note t = persisted_depth_and_fanout_bounded [where env = site_env and links = ex_links and sid = 1
      and sel = ex_source and w = ex_world1 and b = new_browser and f = "CheerioCrawler site_env"
      and ?md5.0 = rev and opts = no_options]
  have a: "articles (fst (snd ?r)) = articles ex_world1 @ added_rows ex_world1 (fst (snd ?r)) \<and>
      list_all (\<lambda>r. row_depth r = 0 + 1 \<and> row_depth r \<le> 1) (added_rows ex_world1 (fst (snd ?r)))"
    using t [where currentDepth = 0 and maxDepth = 1] h1 by blast
  have l: "length (articles (fst (snd ?r))) = 2"
    by (simp add: followup_defs)
  have "articles ex_world1 = []" by (simp add: ex_world1_def)
  then have d: "map row_depth (articles (fst (snd ?r))) = [1, 1]"
    using a l by (auto simp: list_all_iff length_Suc_conv numeral_2_eq_2)
  have v: "visited (snd (snd ?r)) = [''http://a/n1'', ''http://a/n2'']"
    by (simp add: followup_defs)
  have s: "crawlInternalLinks site_env ex_links 1 ex_source 1 1 (ex_world1, new_browser)
     = ([], ex_world1, new_browser)"
    using t [where currentDepth = 1 and maxDepth = 1] h2 by blast
  have c: "list_all (\<lambda>r. row_depth r = 0 \<and> \<not> exceeds_crawlDepth (opt_crawlDepth no_options) (row_depth r))
        (added_rows ex_world1 (snd (crawlSource rev (CheerioCrawler site_env) 1 no_options ex_world1)))"
    using t h3 by blast
  have e: "map row_depth (articles (snd (crawlSource rev (CheerioCrawler site_env) 1 no_options ex_world1)))
     = [0, 0, 0, 0]"
    by (simp add: crawl_defs backend_defs)
  show ?thesis using d v s e c by (simp add: ex_links_def)
qed

section \<open>Properties: the scheduler\<close>


lemma runJob_cron_callback: "sch_id captured = i \<Longrightarrow> cron_callback cs captured w = runJob cs i w"
  by (simp add: cron_callback_def runJob_def)

lemma getScheduleById_trace:
  "getScheduleById i w = (r, w1) \<Longrightarrow> trace w1 = trace w @ [ScheduleRead i]"
  by (auto simp: getScheduleById_def log_event_def next_fault_def split: list.splits option.splits)

lemma next_fault_log_event: "fst (next_fault (log_event e w)) = fst (next_fault w)"
  by (simp add: next_fault_def log_event_def split: list.splits)

lemma find_Some_holds: "find P xs = Some x \<Longrightarrow> P x"
  by (induction xs) (auto split: if_splits)

lemma getScheduleById_id:
  assumes "getScheduleById i w = (Inr (Some s), w1)"
  shows "sch_id s = i"
proof -
  obtain f w' where n: "next_fault (log_event (ScheduleRead i) w) = (f, w')"
    by (cases "next_fault (log_event (ScheduleRead i) w)")
  then have "find (\<lambda>s. sch_id s = i) (schedules w') = Some s"
    using assms by (cases f) (auto simp add: getScheduleById_def)
  then show ?thesis by (rule find_Some_holds)
qed

lemma updateLastRun_trace:
  "trace (snd (updateLastRun i w)) = trace w @ [LastRunUpdated i]"
  by (auto simp: updateLastRun_def log_event_def next_fault_def split: list.splits option.splits)

lemma updateLastRun_row:
  assumes "next_fault (log_event (LastRunUpdated i) w) = (None, w1)"
    and "s \<in> set (schedules (snd (updateLastRun i w)))" and "sch_id s = i"
  shows "last_run s = Some (length (trace (snd (updateLastRun i w))))"
proof -
  have u: "snd (updateLastRun i w) = w1\<lparr>schedules :=
             map (\<lambda>s. if sch_id s = i then s\<lparr>last_run := Some (length (trace w1))\<rparr> else s)
               (schedules w1)\<rparr>"
    using assms(1) by (simp add: updateLastRun_def)
  then obtain s0 where "s0 \<in> set (schedules w1)"
      "s = (if sch_id s0 = i then s0\<lparr>last_run := Some (length (trace w1))\<rparr> else s0)"
    using assms(2) by auto
  then show ?thesis using assms(3) u by (cases "sch_id s0 = i") simp_all
qed

lemma run_scheduled_crawl_trace:
  "\<exists>evs. trace (run_scheduled_crawl (crawlSource_fn md5 f) fresh w) =
      trace w @ CrawlSourceCalled (sch_source_id fresh) (schedule_crawlOptions fresh) # evs @
        [CrawlSourceReturned (sch_source_id fresh)
           (success (fst (crawlSource md5 f (sch_source_id fresh) (schedule_crawlOptions fresh) w))),
         LastRunUpdated (sch_id fresh)] \<and>
      backend_events (sch_source_id fresh) evs"
proof -
  let ?sid = "sch_source_id fresh" and ?o = "schedule_crawlOptions fresh"
  obtain evs where e: "trace (snd (crawlSource md5 f ?sid ?o w)) =
      trace w @ CrawlSourceCalled ?sid ?o # evs @
        [CrawlSourceReturned ?sid (success (fst (crawlSource md5 f ?sid ?o w)))]"
      "backend_events ?sid evs"
    using crawlSource_trace [of md5 f ?sid ?o w] by blast
  have "run_scheduled_crawl (crawlSource_fn md5 f) fresh w =
          snd (updateLastRun (sch_id fresh) (snd (crawlSource md5 f ?sid ?o w)))"
    by (simp add: run_scheduled_crawl_def crawlSource_fn_def)
  then have "trace (run_scheduled_crawl (crawlSource_fn md5 f) fresh w) =
      trace w @ CrawlSourceCalled ?sid ?o # evs @
        [CrawlSourceReturned ?sid (success (fst (crawlSource md5 f ?sid ?o w))),
         LastRunUpdated (sch_id fresh)]"
    using e(1) updateLastRun_trace by simp
  then show ?thesis using e(2) by blast
qed

lemmas eval_defs = runJob_def cron_callback_def cron_fire_def startJob_def no_jobs_def
  getScheduleById_def updateLastRun_def run_scheduled_crawl_def crawlSource_fn_def
  schedule_crawlOptions_def js_or_def
  validateCrawlOptions_def default_to_def out_of_range_def Let_def
  crawlSource_def crawlSource_try_def getSource_def next_fault_def log_event_def
  logCrawlOperation_def crawl_with_crawler_def crawl_and_store_def idle_crawler_def
  crawler_close_def logCrawlHistory_def number_of_def crawler_type_or_default_def
  ex_world1_def ex_world2_def ex_world3_def ex_source_def ex_schedule_def

text \<open>
  C7. In a manual run and in a cron fire alike, once the schedule row has been read the
  trace is: the read, the call of \<open>crawlSource\<close>, calls of the backend, the return of
  \<open>crawlSource\<close>, and only then the \<open>UPDATE\<close> of \<open>last_run\<close>, which is issued as the
  last action whether the crawl returned success or failure. When that statement runs,
  the row's \<open>last_run\<close> is the time after the return.
\<close>

theorem last_run_recorded_after_crawl_returns:
  assumes "getScheduleById i w = (Inr (Some fresh), w1)"
  shows "(\<exists>evs. trace (runJob (crawlSource_fn md5 f) i w) =
            trace w @ ScheduleRead i #
              CrawlSourceCalled (sch_source_id fresh) (schedule_crawlOptions fresh) # evs @
              [CrawlSourceReturned (sch_source_id fresh)
                 (success (fst (crawlSource md5 f (sch_source_id fresh) (schedule_crawlOptions fresh) w1))),
               LastRunUpdated i] \<and>
            backend_events (sch_source_id fresh) evs) \<and>
         (sch_id captured = i \<longrightarrow>
            cron_callback (crawlSource_fn md5 f) captured w = runJob (crawlSource_fn md5 f) i w) \<and>
         (fst (next_fault (snd (crawlSource md5 f (sch_source_id fresh) (schedule_crawlOptions fresh) w1))) = None
            \<longrightarrow> (\<forall>s \<in> set (schedules (runJob (crawlSource_fn md5 f) i w)).
                   sch_id s = i \<longrightarrow> last_run s = Some (length (trace (runJob (crawlSource_fn md5 f) i w)))))"
proof (intro conjI impI ballI)
  have id: "sch_id fresh = i" using assms by (rule getScheduleById_id)
  have t1: "trace w1 = trace w @ [ScheduleRead i]" using assms by (rule getScheduleById_trace)
  have r: "runJob (crawlSource_fn md5 f) i w = run_scheduled_crawl (crawlSource_fn md5 f) fresh w1"
    using assms by (simp add: runJob_def)
  show "\<exists>evs. trace (runJob (crawlSource_fn md5 f) i w) =
            trace w @ ScheduleRead i #
              CrawlSourceCalled (sch_source_id fresh) (schedule_crawlOptions fresh) # evs @
              [CrawlSourceReturned (sch_source_id fresh)
                 (success (fst (crawlSource md5 f (sch_source_id fresh) (schedule_crawlOptions fresh) w1))),
               LastRunUpdated i] \<and>
            backend_events (sch_source_id fresh) evs"
    using run_scheduled_crawl_trace [of md5 f fresh w1] r t1 id by auto
  show "cron_callback (crawlSource_fn md5 f) captured w = runJob (crawlSource_fn md5 f) i w"
    if "sch_id captured = i" using that by (rule runJob_cron_callback)
  show "last_run s = Some (length (trace (runJob (crawlSource_fn md5 f) i w)))"
    if "fst (next_fault (snd (crawlSource md5 f (sch_source_id fresh) (schedule_crawlOptions fresh) w1))) = None"
      and "s \<in> set (schedules (runJob (crawlSource_fn md5 f) i w))" and "sch_id s = i" for s
  proof -
    let ?w2 = "snd (crawlSource md5 f (sch_source_id fresh) (schedule_crawlOptions fresh) w1)"
    have r2: "runJob (crawlSource_fn md5 f) i w = snd (updateLastRun i ?w2)"
      using r id by (simp add: run_scheduled_crawl_def crawlSource_fn_def)
    have "fst (next_fault (log_event (LastRunUpdated i) ?w2)) = None"
      using that(1) by (simp add: next_fault_log_event)
    then obtain w3 where nf: "next_fault (log_event (LastRunUpdated i) ?w2) = (None, w3)"
      by (cases "next_fault (log_event (LastRunUpdated i) ?w2)") simp
    show ?thesis
      using updateLastRun_row [OF nf _ that(3)] that(2) unfolding r2 by simp
  qed
qed

theorem last_run_recorded_after_crawl_returns_witness:
  "trace (cron_callback (crawlSource_fn rev idle_crawler) ex_schedule (ex_world2 5)) =
     [ScheduleRead 3, CrawlSourceCalled 1 (schedule_crawlOptions ex_schedule), CrawlerCrawl 1,
      CrawlerClose 1, CrawlSourceReturned 1 True, LastRunUpdated 3] \<and>
   map last_run (schedules (runJob (crawlSource_fn rev idle_crawler) 3 (ex_world2 5))) = [Some 6] \<and>
   trace (runJob (crawlSource_fn rev idle_crawler) 3 ex_world3) =
     [ScheduleRead 3, CrawlSourceCalled 9 (schedule_crawlOptions ex_schedule),
      CrawlSourceReturned 9 False, LastRunUpdated 3]"
proof -
  let ?cs = "crawlSource_fn rev idle_crawler"
  have h: "getScheduleById 3 (ex_world2 5) = (Inr (Some ex_schedule), log_event (ScheduleRead 3) (ex_world2 5))"
    by (simp add: eval_defs)
  note t = last_run_recorded_after_crawl_returns [OF h, where ?md5.0 = rev and f = idle_crawler
      and captured = ex_schedule]
  have c: "sch_id ex_schedule = 3" by (simp add: ex_schedule_def)
  have n: "fst (next_fault (snd (crawlSource rev idle_crawler (sch_source_id ex_schedule)
             (schedule_crawlOptions ex_schedule) (log_event (ScheduleRead 3) (ex_world2 5))))) = None"
    by (simp add: eval_defs)
  have e1: "trace (runJob ?cs 3 (ex_world2 5)) =
     [ScheduleRead 3, CrawlSourceCalled 1 (schedule_crawlOptions ex_schedule), CrawlerCrawl 1,
      CrawlerClose 1, CrawlSourceReturned 1 True, LastRunUpdated 3]"
    by (simp add: eval_defs)
  have e2: "schedules (runJob ?cs 3 (ex_world2 5)) = [ex_schedule\<lparr>last_run := Some 6\<rparr>]"
    by (simp add: eval_defs)
  have e3: "trace (runJob ?cs 3 ex_world3) =
     [ScheduleRead 3, CrawlSourceCalled 9 (schedule_crawlOptions ex_schedule),
      CrawlSourceReturned 9 False, LastRunUpdated 3]"
    by (simp add: eval_defs)
  from t c have u: "cron_callback ?cs ex_schedule (ex_world2 5) = runJob ?cs 3 (ex_world2 5)"
    by blast
  from t n have "\<forall>s \<in> set (schedules (runJob ?cs 3 (ex_world2 5))).
      sch_id s = 3 \<longrightarrow> last_run s = Some (length (trace (runJob ?cs 3 (ex_world2 5))))"
    by blast
  then have l: "map last_run (schedules (runJob ?cs 3 (ex_world2 5))) = [Some 6]"
    using e1 e2 by (simp add: ex_schedule_def)
  show ?thesis using u e1 l e3 by simp
qed

text \<open>
  C6 (as amended). A fire of the job started with \<open>startJob(s)\<close> reads the row of
  \<open>s.id\<close> at dispatch and calls \<open>crawlSource\<close> with the source and the options of the
  row as stored then, whatever the captured object \<open>s\<close> holds: the stored \<open>article_limit\<close>,
  \<open>timeout_ms\<close> and \<open>full_content\<close> unless falsy (then 10, 300000 and \<open>false\<close>), the
  stored \<open>crawl_depth\<close>, and \<open>followLinks\<close> true unless \<open>follow_links\<close> is the boolean
  \<open>false\<close>. So a non-zero \<open>article_limit\<close> written between two fires is the limit of the
  second.
\<close>

theorem cron_fire_reads_row_at_dispatch:
  assumes "getScheduleById (sch_id s) w = (Inr (Some fresh), w1)"
  shows "(\<exists>evs. trace (cron_fire (crawlSource_fn md5 f) (startJob s sch) (sch_id s) w) =
            trace w @ ScheduleRead (sch_id s) #
              CrawlSourceCalled (sch_source_id fresh) (schedule_crawlOptions fresh) # evs) \<and>
         opt_limit (schedule_crawlOptions fresh) =
            (if truthy (article_limit fresh) then article_limit fresh else JNum (Fin 10)) \<and>
         opt_timeout (schedule_crawlOptions fresh) =
            (if truthy (timeout_ms fresh) then timeout_ms fresh else JNum (Fin 300000)) \<and>
         opt_fullContent (schedule_crawlOptions fresh) =
            (if truthy (full_content fresh) then full_content fresh else JBool False) \<and>
         opt_crawlDepth (schedule_crawlOptions fresh) =
            (if crawl_depth fresh = JUndefined then JNum (Fin 0) else crawl_depth fresh) \<and>
         opt_followLinks (schedule_crawlOptions fresh) = JBool (follow_links fresh \<noteq> JBool False) \<and>
         (article_limit fresh = JNum (Fin n) \<and> n \<noteq> 0 \<longrightarrow>
            opt_limit (schedule_crawlOptions fresh) = JNum (Fin n))"
proof -
  let ?cs = "crawlSource_fn md5 f"
  have t1: "trace w1 = trace w @ [ScheduleRead (sch_id s)]" using assms by (rule getScheduleById_trace)
  have "cron_fire ?cs (startJob s sch) (sch_id s) w = run_scheduled_crawl ?cs fresh w1"
    using assms by (simp add: cron_fire_def startJob_def cron_callback_def)
  then have "\<exists>evs. trace (cron_fire ?cs (startJob s sch) (sch_id s) w) =
            trace w @ ScheduleRead (sch_id s) #
              CrawlSourceCalled (sch_source_id fresh) (schedule_crawlOptions fresh) # evs"
    using run_scheduled_crawl_trace [of md5 f fresh w1] t1 by auto
  then show ?thesis
    by (simp add: schedule_crawlOptions_def js_or_def)
qed

theorem cron_fire_reads_row_at_dispatch_witness:
  "trace (cron_fire (crawlSource_fn rev idle_crawler) (startJob ex_schedule no_jobs) 3
       (edit_article_limit 3 (JNum (Fin 7))
          (cron_fire (crawlSource_fn rev idle_crawler) (startJob ex_schedule no_jobs) 3 (ex_world2 5)))) =
     [ScheduleRead 3, CrawlSourceCalled 1 (schedule_crawlOptions ex_schedule),
      CrawlerCrawl 1, CrawlerClose 1, CrawlSourceReturned 1 True, LastRunUpdated 3,
      ScheduleRead 3, CrawlSourceCalled 1 ((schedule_crawlOptions ex_schedule)\<lparr>opt_limit := JNum (Fin 7)\<rparr>),
      CrawlerCrawl 1, CrawlerClose 1, CrawlSourceReturned 1 True, LastRunUpdated 3] \<and>
   opt_limit (schedule_crawlOptions ex_schedule) = JNum (Fin 5)"
proof -
  let ?cs = "crawlSource_fn rev idle_crawler"
  let ?w = "edit_article_limit 3 (JNum (Fin 7)) (cron_fire ?cs (startJob ex_schedule no_jobs) 3 (ex_world2 5))"
  let ?fresh = "ex_schedule\<lparr>article_limit := JNum (Fin 7), last_run := Some 6\<rparr>"
  have h: "getScheduleById (sch_id ex_schedule) ?w = (Inr (Some ?fresh), log_event (ScheduleRead 3) ?w)"
    by (simp add: eval_defs edit_article_limit_def)
  note t = cron_fire_reads_row_at_dispatch [OF h, where ?md5.0 = rev and f = idle_crawler
      and sch = no_jobs and n = 7]
  have a: "article_limit ?fresh = JNum (Fin 7) \<and> (7::real) \<noteq> 0" by simp
  from t a have l: "opt_limit (schedule_crawlOptions ?fresh) = JNum (Fin 7)" by blast
  have e: "trace (cron_fire ?cs (startJob ex_schedule no_jobs) 3 ?w) =
     [ScheduleRead 3, CrawlSourceCalled 1 (schedule_crawlOptions ex_schedule),
      CrawlerCrawl 1, CrawlerClose 1, CrawlSourceReturned 1 True, LastRunUpdated 3,
      ScheduleRead 3, CrawlSourceCalled 1 ((schedule_crawlOptions ex_schedule)\<lparr>opt_limit := JNum (Fin 7)\<rparr>),
      CrawlerCrawl 1, CrawlerClose 1, CrawlSourceReturned 1 True, LastRunUpdated 3]"
    by (simp add: eval_defs edit_article_limit_def)
  show ?thesis using e l by (simp add: ex_schedule_def schedule_crawlOptions_def js_or_def)
qed

text \<open>
  The claim as stated fails when the new value is falsy: after \<open>article_limit\<close> is set to
  0 between two fires, the second fire calls \<open>crawlSource\<close> with the limit 10, not 0.
\<close>

theorem cron_fire_zero_limit_counterexample:
  "trace (cron_fire (crawlSource_fn rev idle_crawler) (startJob ex_schedule no_jobs) 3
       (edit_article_limit 3 (JNum (Fin 0))
          (cron_fire (crawlSource_fn rev idle_crawler) (startJob ex_schedule no_jobs) 3 (ex_world2 5)))) =
     [ScheduleRead 3, CrawlSourceCalled 1 (schedule_crawlOptions ex_schedule),
      CrawlerCrawl 1, CrawlerClose 1, CrawlSourceReturned 1 True, LastRunUpdated 3,
      ScheduleRead 3, CrawlSourceCalled 1 ((schedule_crawlOptions ex_schedule)\<lparr>opt_limit := JNum (Fin 10)\<rparr>),
      CrawlerCrawl 1, CrawlerClose 1, CrawlSourceReturned 1 True, LastRunUpdated 3] \<and>
   map article_limit (schedules (edit_article_limit 3 (JNum (Fin 0))
          (cron_fire (crawlSource_fn rev idle_crawler) (startJob ex_schedule no_jobs) 3 (ex_world2 5))))
     = [JNum (Fin 0)]"
  by (simp add: eval_defs edit_article_limit_def)

section \<open>Properties: the two backends on one document\<close>






section \<open>Properties: runs on a storage that raises no error\<close>
















section \<open>Properties: idempotence\<close>




subsection \<open>Items that fail\<close>





section \<open>Properties: the page pool\<close>

text \<open>
  Run one at a time, the two operations keep the pool within the cap, and a page whose
  reset fails, or that meets a full pool, is closed and not pooled.
\<close>

lemma getOrCreatePage_pool_le:
  "length (pagePool (snd (getOrCreatePage env b))) \<le> length (pagePool b)"
  by (simp add: getOrCreatePage_def initBrowser_def split: option.splits sum.splits prod.splits)

lemma releasePage_pool_cap:
  "length (pagePool b) \<le> maxConcurrentPages \<Longrightarrow>
   length (pagePool (snd (releasePage p b))) \<le> maxConcurrentPages"
  by (auto simp: releasePage_def page_close_def split: option.splits)

lemma releasePage_destroyed:
  "reset_error p \<noteq> None \<or> length (pagePool b) \<ge> maxConcurrentPages \<Longrightarrow>
   pagePool (snd (releasePage p b)) = pagePool b \<and> closed (snd (releasePage p b)) = closed b @ [p]"
  by (auto simp: releasePage_def page_close_def split: option.splits)

text \<open>The two steps of a release, with nothing in between, are \<open>releasePage\<close>.\<close>

lemma releasePage_as_steps:
  "pool_browser (pool_run env [ReleaseBegin p, ReleaseResume p] \<lparr>pool_browser = b, resetting = []\<rparr>)
     = snd (releasePage p b)"
  by (simp add: pool_run_def pool_do_def releasePage_def page_close_def split: option.splits)


end
